theory Spec2Isabelle
  imports Complex_Main "HOL-Library.Word" "HOL-Library.Log_Nat"
begin

section \<open>Common conventions\<close>

text \<open>
  The GPU files keep ring elements in MLX arrays of element type Int64 and the evaluator
  keeps them in Go slices of uint64.  A coefficient is modelled as an \<open>int\<close> where the
  source computes on Int64 arrays and as a \<open>64 word\<close> where the source computes on
  uint64.  \<open>polyRotate\<close> and \<open>SampleExtract\<close> call the MLX library; \<open>gpu/ntt.go\<close> goes
  through the array operations of package \<open>gpu\<close> itself, which are embedded with it.

  Go's \<open>%\<close> truncates towards zero: the remainder takes the sign of the dividend.
\<close>

definition go_rem :: "int \<Rightarrow> int \<Rightarrow> int" where
  "go_rem a b = sgn a * (\<bar>a\<bar> mod \<bar>b\<bar>)"

text \<open>
  Errors are values.  Each constructor stands for one \<open>fmt.Errorf\<close> of the source; an
  error that wraps one of an external library keeps no payload.
\<close>

datatype error =
    MissingKeySwitchKey \<comment> \<open>"bootstrap key does not contain key switching key"\<close>
  | KeySwitchingFailed \<comment> \<open>"key switching failed: ..."\<close>
  | BootstrapEvaluateFailed \<comment> \<open>"bootstrap: ..."\<close>
  | NoResultForSlot0 \<comment> \<open>"bootstrap: no result for slot 0"\<close>
  | WidthMismatch

section \<open>Monomial multiplication (negacyclic rotation)\<close>

subsection \<open>\<open>ExternalProductContext.polyRotate\<close>\<close>

text \<open>
  One batch element of \<open>polyRotate\<close>: the rotation amount is reduced modulo \<open>N\<close>
  (\<open>kVal := int(kVals[b]) % N\<close>, made non-negative), the source index of output
  position \<open>i\<close> is \<open>(i - kVal + N) % N\<close>, the sign is \<open>-1\<close> where \<open>i < kVal\<close>, and
  \<open>Q\<close> is added wherever the sign is negative.
\<close>

definition polyRotate_row :: "nat \<Rightarrow> int \<Rightarrow> int list \<Rightarrow> int \<Rightarrow> int list" where
  "polyRotate_row N Q polyB k =
     (let kVal0 = go_rem k (int N);
          kVal = (if kVal0 < 0 then kVal0 + int N else kVal0)
      in map (\<lambda>i.
            let srcIdx = go_rem (int i - kVal + int N) (int N);
                sign = (if int i < kVal then - 1 else 1);
                rotated = (polyB ! nat srcIdx) * sign;
                adjusted = rotated + Q
            in if sign < 0 then adjusted else rotated) [0..<N])"

text \<open>The batched function rotates row \<open>b\<close> of \<open>poly\<close> by entry \<open>b\<close> of \<open>k\<close>.\<close>

definition polyRotate :: "nat \<Rightarrow> int \<Rightarrow> int list list \<Rightarrow> int list \<Rightarrow> nat \<Rightarrow> int list list" where
  "polyRotate N Q poly k batchSize =
     map (\<lambda>b. polyRotate_row N Q (poly ! b) (k ! b)) [0..<batchSize]"

section \<open>The evaluator (\<open>evaluator.go\<close>)\<close>

subsection \<open>Ciphertexts in a store\<close>

text \<open>
  A \<open>ring.Poly\<close> holds a slice of uint64 coefficients and an \<open>rlwe.Ciphertext\<close> holds
  two polynomials and the flag \<open>IsNTT\<close>; both are reached through pointers and written
  in place.  The store maps an address to the object it holds; \<open>fresh\<close> is the next
  address an allocation returns.  Only one level of the modulus chain is used, so a
  polynomial is one coefficient list.
\<close>

type_synonym addr = nat
type_synonym coeffs = "64 word list"

datatype obj =
    Coeffs coeffs
  | Ct "addr list" bool

record store =
  mem :: "addr \<Rightarrow> obj option"
  fresh :: addr

definition alloc :: "obj \<Rightarrow> store \<Rightarrow> store \<times> addr" where
  "alloc ob s = (s\<lparr>mem := (mem s)(fresh s \<mapsto> ob), fresh := Suc (fresh s)\<rparr>, fresh s)"

text \<open>
  Reading through a nil or dangling pointer panics in Go; the model reads the empty
  polynomial, address \<open>0\<close> and the flag \<open>False\<close> there.
\<close>

definition coeffs_at :: "store \<Rightarrow> addr \<Rightarrow> coeffs" where
  "coeffs_at s a = (case mem s a of Some (Coeffs c) \<Rightarrow> c | _ \<Rightarrow> [])"

definition Value :: "store \<Rightarrow> addr \<Rightarrow> nat \<Rightarrow> addr" where
  "Value s ct j = (case mem s ct of Some (Ct vs b) \<Rightarrow> (if j < length vs then vs ! j else 0) | _ \<Rightarrow> 0)"

definition IsNTT :: "store \<Rightarrow> addr \<Rightarrow> bool" where
  "IsNTT s ct = (case mem s ct of Some (Ct vs b) \<Rightarrow> b | _ \<Rightarrow> False)"

definition write_coeffs :: "store \<Rightarrow> addr \<Rightarrow> coeffs \<Rightarrow> store" where
  "write_coeffs s a c = s\<lparr>mem := (mem s)(a \<mapsto> Coeffs c)\<rparr>"

definition set_IsNTT :: "store \<Rightarrow> addr \<Rightarrow> bool \<Rightarrow> store" where
  "set_IsNTT s ct b =
     (case mem s ct of Some (Ct vs b0) \<Rightarrow> s\<lparr>mem := (mem s)(ct \<mapsto> Ct vs b)\<rparr> | _ \<Rightarrow> s)"

text \<open>\<open>rlwe.NewCiphertext\<close>: two zero polynomials of the ring degree, \<open>IsNTT\<close> unset.\<close>

definition NewCiphertext :: "nat \<Rightarrow> store \<Rightarrow> store \<times> addr" where
  "NewCiphertext n s =
     (let (s1, a0) = alloc (Coeffs (replicate n 0)) s;
          (s2, a1) = alloc (Coeffs (replicate n 0)) s1
      in alloc (Ct [a0, a1] False) s2)"

text \<open>\<open>CopyNew\<close> on a polynomial and on a ciphertext: a deep copy at fresh addresses.\<close>

definition Poly_CopyNew :: "store \<Rightarrow> addr \<Rightarrow> store \<times> addr" where
  "Poly_CopyNew s p = alloc (Coeffs (coeffs_at s p)) s"

definition CopyNew :: "store \<Rightarrow> addr \<Rightarrow> store \<times> addr" where
  "CopyNew s ct =
     (let (s1, a0) = Poly_CopyNew s (Value s ct 0);
          (s2, a1) = Poly_CopyNew s1 (Value s ct 1)
      in alloc (Ct [a0, a1] (IsNTT s ct)) s2)"

text \<open>
  A ring operation of the lattice library takes its operands and the polynomial that
  receives the result (\<open>ring.Add(p1, p2, p3)\<close>, \<open>ring.Neg(p1, p2)\<close>, \<open>ring.NTT(p1, p2)\<close>):
  it reads the operands and writes the receiver.
\<close>

definition poly_op1 :: "(coeffs \<Rightarrow> coeffs) \<Rightarrow> store \<Rightarrow> addr \<Rightarrow> addr \<Rightarrow> store" where
  "poly_op1 f s p1 p2 = write_coeffs s p2 (f (coeffs_at s p1))"

definition poly_op2 :: "(coeffs \<Rightarrow> coeffs \<Rightarrow> coeffs) \<Rightarrow> store \<Rightarrow> addr \<Rightarrow> addr \<Rightarrow> addr \<Rightarrow> store" where
  "poly_op2 f s p1 p2 p3 = write_coeffs s p3 (f (coeffs_at s p1) (coeffs_at s p2))"

subsection \<open>The evaluator and what it takes from outside the repository\<close>

text \<open>
  The record holds the parameters the evaluator reads (\<open>params.QLWE()\<close>, \<open>params.QBR()\<close>,
  the ring degrees), the bootstrap key's switch-key presence and test polynomials, and the
  operations of the lattice library the file calls, taken as parameters: the ring
  operations of \<open>ringQLWE\<close> and \<open>ringQBR\<close> as functions on coefficient lists,
  \<open>blindrot.Evaluator.Evaluate\<close> as a function on the store that returns the store, and
  an error or the result map's entry for slot 0 (absent when the map has none), and
  \<open>rlwe.Evaluator.ApplyEvaluationKey\<close> as a function from the two input polynomials to an
  error or the two output polynomials and the output's \<open>IsNTT\<close>.
\<close>

record Evaluator =
  N_LWE :: nat
  QLWE :: "64 word"
  N_BR :: nat
  QBR :: "64 word"
  KSK_present :: bool
  TestPolyAND :: coeffs
  TestPolyOR :: coeffs
  TestPolyXOR :: coeffs
  TestPolyNAND :: coeffs
  TestPolyNOR :: coeffs
  TestPolyXNOR :: coeffs
  TestPolyMAJORITY :: coeffs
  TestPolyID :: coeffs
  ringQLWE_Add :: "coeffs \<Rightarrow> coeffs \<Rightarrow> coeffs"
  ringQLWE_Neg :: "coeffs \<Rightarrow> coeffs"
  ringQLWE_NTT :: "coeffs \<Rightarrow> coeffs"
  ringQLWE_INTT :: "coeffs \<Rightarrow> coeffs"
  ringQBR_NTT :: "coeffs \<Rightarrow> coeffs"
  ringQBR_INTT :: "coeffs \<Rightarrow> coeffs"
  blindrot_Evaluate :: "store \<Rightarrow> addr \<Rightarrow> coeffs \<Rightarrow> store \<times> (error + addr option)"
  ApplyEvaluationKey :: "coeffs \<Rightarrow> coeffs \<Rightarrow> error + (coeffs \<times> coeffs \<times> bool)"

subsection \<open>Sample extraction and the final modulus switch\<close>

text \<open>
  Lines 87 to 106 of \<open>sampleExtractAndKeySwitch\<close>, on the two coefficient lists of the
  new ciphertext \<open>ctLWEBR\<close>: coefficient 0 of each is copied, the remaining coefficients
  of \<open>Value[1]\<close> are \<open>qBR - c1[NBR - i]\<close> in uint64 arithmetic, and those of \<open>Value[0]\<close>
  are set to zero.
\<close>

definition sampleExtract :: "nat \<Rightarrow> 64 word \<Rightarrow> coeffs \<Rightarrow> coeffs \<Rightarrow> coeffs \<Rightarrow> coeffs \<Rightarrow> coeffs \<times> coeffs" where
  "sampleExtract NBR qBR c0 c1 value0 value1 =
     (let value0 = value0[0 := c0 ! 0];
          value1 = value1[0 := c1 ! 0];
          value1 = fold (\<lambda>i v. v[i := qBR - c1 ! (NBR - i)]) [1..<NBR] value1;
          value0 = fold (\<lambda>i v. v[i := 0]) [1..<NBR] value0
      in (value0, value1))"

text \<open>
  A float64 is a rational here.  For the magnitudes that occur (an integer below \<open>2\<^sup>6\<^sup>4\<close>,
  a quotient of two such and a product of the two) a float64 is a normal number: a
  53-bit significand times a power of two.  \<open>fl64\<close> rounds a rational to the nearest such
  number, ties to the even significand, as the conversion \<open>float64(x)\<close>, the division and
  the multiplication of IEEE 754 do.  \<open>bitlen\<close> is the number of binary digits.
\<close>

definition pow2 :: "int \<Rightarrow> rat" where
  "pow2 e = (if 0 \<le> e then 2 ^ nat e else 1 / 2 ^ nat (- e))"

definition round_half_even :: "rat \<Rightarrow> int" where
  "round_half_even m =
     (let f = \<lfloor>m\<rfloor>; d = m - of_int f
      in if d < 1 / 2 then f else if 1 / 2 < d then f + 1 else if even f then f else f + 1)"

definition ilog2 :: "rat \<Rightarrow> int" where
  "ilog2 r =
     (let (p, q) = quotient_of r;
          d = bitlen p - bitlen q
      in if pow2 d \<le> r then d else d - 1)"

definition fl64 :: "rat \<Rightarrow> rat" where
  "fl64 r =
     (if r = 0 then 0
      else let a = \<bar>r\<bar>;
               ulp = pow2 (ilog2 a - 52)
           in sgn r * of_int (round_half_even (a / ulp)) * ulp)"

text \<open>
  Lines 135 to 144: \<open>scaleFactor := float64(qLWE) / float64(qBR)\<close> and, for a coefficient
  \<open>x\<close>, \<open>uint64(float64(x) * scaleFactor) % qLWE\<close>.  The conversion to uint64 drops the
  fraction.
\<close>

definition scaleFactor :: "64 word \<Rightarrow> 64 word \<Rightarrow> rat" where
  "scaleFactor qLWE qBR = fl64 (fl64 (of_int (uint qLWE)) / fl64 (of_int (uint qBR)))"

definition scaleCoeff :: "64 word \<Rightarrow> 64 word \<Rightarrow> 64 word \<Rightarrow> 64 word" where
  "scaleCoeff qLWE qBR x =
     (let scaled = (word_of_int \<lfloor>fl64 (fl64 (of_int (uint x)) * scaleFactor qLWE qBR)\<rfloor> :: 64 word)
      in scaled mod qLWE)"

text \<open>The loop over \<open>i < ringQLWE.N()\<close> rescales the first \<open>n\<close> coefficients.\<close>

definition scaleCoeffs :: "nat \<Rightarrow> 64 word \<Rightarrow> 64 word \<Rightarrow> coeffs \<Rightarrow> coeffs" where
  "scaleCoeffs n qLWE qBR v = fold (\<lambda>i v. v[i := scaleCoeff qLWE qBR (v ! i)]) [0..<n] v"

text \<open>
  The whole function, on the store, in the three steps the source marks.  Step 1 copies
  the two polynomials of \<open>ctBR\<close>, leaves the NTT domain on the copies when \<open>ctBR.IsNTT\<close>
  is set, fills the new ciphertext \<open>ctLWEBR\<close> by sample extraction and transforms it.
\<close>

definition extract_step :: "Evaluator \<Rightarrow> store \<Rightarrow> addr \<Rightarrow> store \<times> addr" where
  "extract_step ev s ctBR =
     (let NBR = N_BR ev;
          qBR = QBR ev;
          (s, c0) = Poly_CopyNew s (Value s ctBR 0);
          (s, c1) = Poly_CopyNew s (Value s ctBR 1);
          s = (if IsNTT s ctBR
               then poly_op1 (ringQBR_INTT ev) (poly_op1 (ringQBR_INTT ev) s c0 c0) c1 c1
               else s);
          (s, ctLWEBR) = NewCiphertext NBR s;
          (v0, v1) = sampleExtract NBR qBR (coeffs_at s c0) (coeffs_at s c1)
                       (coeffs_at s (Value s ctLWEBR 0)) (coeffs_at s (Value s ctLWEBR 1));
          s = write_coeffs s (Value s ctLWEBR 0) v0;
          s = write_coeffs s (Value s ctLWEBR 1) v1;
          s = poly_op1 (ringQBR_NTT ev) s (Value s ctLWEBR 0) (Value s ctLWEBR 0);
          s = poly_op1 (ringQBR_NTT ev) s (Value s ctLWEBR 1) (Value s ctLWEBR 1);
          s = set_IsNTT s ctLWEBR True
      in (s, ctLWEBR))"

text \<open>Step 2 allocates \<open>ctLWE\<close> and applies the key-switching key into it.\<close>

definition keySwitch_step :: "Evaluator \<Rightarrow> store \<Rightarrow> addr \<Rightarrow> store \<times> (error + addr)" where
  "keySwitch_step ev s ctLWEBR =
     (let (s, ctLWE) = NewCiphertext (N_LWE ev) s;
          s = set_IsNTT s ctLWE True
      in case ApplyEvaluationKey ev (coeffs_at s (Value s ctLWEBR 0))
                (coeffs_at s (Value s ctLWEBR 1)) of
           Inl e \<Rightarrow> (s, Inl KeySwitchingFailed)
         | Inr (w0, w1, ntt) \<Rightarrow>
             let s = write_coeffs s (Value s ctLWE 0) w0;
                 s = write_coeffs s (Value s ctLWE 1) w1;
                 s = set_IsNTT s ctLWE ntt
             in (s, Inr ctLWE))"

text \<open>
  Step 3 leaves the NTT domain when the flag is set, rescales both polynomials from
  \<open>QBR\<close> to \<open>QLWE\<close> and returns to the NTT domain.
\<close>

definition scale_step :: "Evaluator \<Rightarrow> store \<Rightarrow> addr \<Rightarrow> store" where
  "scale_step ev s ctLWE =
     (let s = (if IsNTT s ctLWE
               then set_IsNTT
                      (poly_op1 (ringQLWE_INTT ev)
                         (poly_op1 (ringQLWE_INTT ev) s (Value s ctLWE 0) (Value s ctLWE 0))
                         (Value s ctLWE 1) (Value s ctLWE 1))
                      ctLWE False
               else s);
          qLWE = QLWE ev;
          qBR = QBR ev;
          s = write_coeffs s (Value s ctLWE 0)
                (scaleCoeffs (N_LWE ev) qLWE qBR (coeffs_at s (Value s ctLWE 0)));
          s = write_coeffs s (Value s ctLWE 1)
                (scaleCoeffs (N_LWE ev) qLWE qBR (coeffs_at s (Value s ctLWE 1)));
          s = poly_op1 (ringQLWE_NTT ev) s (Value s ctLWE 0) (Value s ctLWE 0);
          s = poly_op1 (ringQLWE_NTT ev) s (Value s ctLWE 1) (Value s ctLWE 1)
      in set_IsNTT s ctLWE True)"

definition sampleExtractAndKeySwitch :: "Evaluator \<Rightarrow> store \<Rightarrow> addr \<Rightarrow> store \<times> (error + addr)" where
  "sampleExtractAndKeySwitch ev s ctBR =
     (if \<not> KSK_present ev then (s, Inl MissingKeySwitchKey)
      else
        let (s, ctLWEBR) = extract_step ev s ctBR
        in case keySwitch_step ev s ctLWEBR of
             (s, Inl err) \<Rightarrow> (s, Inl err)
           | (s, Inr ctLWE) \<Rightarrow> (scale_step ev s ctLWE, Inr ctLWE))"

text \<open>
  \<open>bootstrap\<close>: the blind rotation of the library, then sample extraction and key
  switch on the result for slot 0.
\<close>

definition bootstrap :: "Evaluator \<Rightarrow> store \<Rightarrow> addr \<Rightarrow> coeffs \<Rightarrow> store \<times> (error + addr)" where
  "bootstrap ev s ct testPoly =
     (case blindrot_Evaluate ev s ct testPoly of
        (s, Inl e) \<Rightarrow> (s, Inl BootstrapEvaluateFailed)
      | (s, Inr None) \<Rightarrow> (s, Inl NoResultForSlot0)
      | (s, Inr (Some ctBR)) \<Rightarrow> sampleExtractAndKeySwitch ev s ctBR)"

subsection \<open>The linear steps\<close>

definition addCiphertexts :: "Evaluator \<Rightarrow> store \<Rightarrow> addr \<Rightarrow> addr \<Rightarrow> store \<times> addr" where
  "addCiphertexts ev s ct1 ct2 =
     (let (s, result) = NewCiphertext (N_LWE ev) s;
          s = poly_op2 (ringQLWE_Add ev) s (Value s ct1 0) (Value s ct2 0) (Value s result 0);
          s = poly_op2 (ringQLWE_Add ev) s (Value s ct1 1) (Value s ct2 1) (Value s result 1);
          s = set_IsNTT s result (IsNTT s ct1)
      in (s, result))"

definition doubleCiphertext :: "Evaluator \<Rightarrow> store \<Rightarrow> addr \<Rightarrow> store \<times> addr" where
  "doubleCiphertext ev s ct =
     (let (s, result) = NewCiphertext (N_LWE ev) s;
          s = poly_op2 (ringQLWE_Add ev) s (Value s ct 0) (Value s ct 0) (Value s result 0);
          s = poly_op2 (ringQLWE_Add ev) s (Value s ct 1) (Value s ct 1) (Value s result 1);
          s = set_IsNTT s result (IsNTT s ct)
      in (s, result))"

definition negateCiphertext :: "Evaluator \<Rightarrow> store \<Rightarrow> addr \<Rightarrow> store \<times> addr" where
  "negateCiphertext ev s ct =
     (let (s, result) = NewCiphertext (N_LWE ev) s;
          s = poly_op1 (ringQLWE_Neg ev) s (Value s ct 0) (Value s result 0);
          s = poly_op1 (ringQLWE_Neg ev) s (Value s ct 1) (Value s result 1);
          s = set_IsNTT s result (IsNTT s ct)
      in (s, result))"

text \<open>
  \<open>addConstant\<close> works on a copy: it leaves the NTT domain when the copy's flag is set,
  adds the constant to coefficient 0 of \<open>Value[1]\<close> modulo \<open>QLWE\<close> in uint64 arithmetic, and
  returns to the NTT domain when the operand's flag is set.
\<close>

definition addConstant :: "Evaluator \<Rightarrow> store \<Rightarrow> addr \<Rightarrow> 64 word \<Rightarrow> store \<times> addr" where
  "addConstant ev s ct constant =
     (let (s, result) = CopyNew s ct;
          s = (if IsNTT s result
               then poly_op1 (ringQLWE_INTT ev) s (Value s result 1) (Value s result 1) else s);
          q = QLWE ev;
          v = coeffs_at s (Value s result 1);
          s = write_coeffs s (Value s result 1) (v[0 := (v ! 0 + constant) mod q]);
          s = (if IsNTT s ct
               then poly_op1 (ringQLWE_NTT ev) s (Value s result 1) (Value s result 1) else s)
      in (s, result))"

subsection \<open>Boolean gates\<close>

definition NOT_gate :: "Evaluator \<Rightarrow> store \<Rightarrow> addr \<Rightarrow> store \<times> addr" where
  "NOT_gate ev s ct = negateCiphertext ev s ct"

definition AND_gate :: "Evaluator \<Rightarrow> store \<Rightarrow> addr \<Rightarrow> addr \<Rightarrow> store \<times> (error + addr)" where
  "AND_gate ev s ct1 ct2 =
     (let (s, sum) = addCiphertexts ev s ct1 ct2 in bootstrap ev s sum (TestPolyAND ev))"

definition OR_gate :: "Evaluator \<Rightarrow> store \<Rightarrow> addr \<Rightarrow> addr \<Rightarrow> store \<times> (error + addr)" where
  "OR_gate ev s ct1 ct2 =
     (let (s, sum) = addCiphertexts ev s ct1 ct2 in bootstrap ev s sum (TestPolyOR ev))"

definition XOR_gate :: "Evaluator \<Rightarrow> store \<Rightarrow> addr \<Rightarrow> addr \<Rightarrow> store \<times> (error + addr)" where
  "XOR_gate ev s ct1 ct2 =
     (let (s, sum) = addCiphertexts ev s ct1 ct2;
          (s, doubled) = doubleCiphertext ev s sum
      in bootstrap ev s doubled (TestPolyXOR ev))"

definition NAND_gate :: "Evaluator \<Rightarrow> store \<Rightarrow> addr \<Rightarrow> addr \<Rightarrow> store \<times> (error + addr)" where
  "NAND_gate ev s ct1 ct2 =
     (let (s, sum) = addCiphertexts ev s ct1 ct2 in bootstrap ev s sum (TestPolyNAND ev))"

definition NOR_gate :: "Evaluator \<Rightarrow> store \<Rightarrow> addr \<Rightarrow> addr \<Rightarrow> store \<times> (error + addr)" where
  "NOR_gate ev s ct1 ct2 =
     (let (s, sum) = addCiphertexts ev s ct1 ct2 in bootstrap ev s sum (TestPolyNOR ev))"

definition XNOR_gate :: "Evaluator \<Rightarrow> store \<Rightarrow> addr \<Rightarrow> addr \<Rightarrow> store \<times> (error + addr)" where
  "XNOR_gate ev s ct1 ct2 =
     (let (s, sum) = addCiphertexts ev s ct1 ct2;
          (s, doubled) = doubleCiphertext ev s sum
      in bootstrap ev s doubled (TestPolyXNOR ev))"

definition ANDNY :: "Evaluator \<Rightarrow> store \<Rightarrow> addr \<Rightarrow> addr \<Rightarrow> store \<times> (error + addr)" where
  "ANDNY ev s ct1 ct2 = (let (s, n1) = NOT_gate ev s ct1 in AND_gate ev s n1 ct2)"

definition ANDYN :: "Evaluator \<Rightarrow> store \<Rightarrow> addr \<Rightarrow> addr \<Rightarrow> store \<times> (error + addr)" where
  "ANDYN ev s ct1 ct2 = (let (s, n2) = NOT_gate ev s ct2 in AND_gate ev s ct1 n2)"

definition ORNY :: "Evaluator \<Rightarrow> store \<Rightarrow> addr \<Rightarrow> addr \<Rightarrow> store \<times> (error + addr)" where
  "ORNY ev s ct1 ct2 = (let (s, n1) = NOT_gate ev s ct1 in OR_gate ev s n1 ct2)"

definition ORYN :: "Evaluator \<Rightarrow> store \<Rightarrow> addr \<Rightarrow> addr \<Rightarrow> store \<times> (error + addr)" where
  "ORYN ev s ct1 ct2 = (let (s, n2) = NOT_gate ev s ct2 in OR_gate ev s ct1 n2)"

definition MUX :: "Evaluator \<Rightarrow> store \<Rightarrow> addr \<Rightarrow> addr \<Rightarrow> addr \<Rightarrow> store \<times> (error + addr)" where
  "MUX ev s sel ctTrue ctFalse =
     (case AND_gate ev s sel ctTrue of
        (s, Inl err) \<Rightarrow> (s, Inl err)
      | (s, Inr selAndTrue) \<Rightarrow>
          let (s, notSel) = NOT_gate ev s sel
          in case AND_gate ev s notSel ctFalse of
               (s, Inl err) \<Rightarrow> (s, Inl err)
             | (s, Inr notSelAndFalse) \<Rightarrow> OR_gate ev s selAndTrue notSelAndFalse)"

definition AND3 :: "Evaluator \<Rightarrow> store \<Rightarrow> addr \<Rightarrow> addr \<Rightarrow> addr \<Rightarrow> store \<times> (error + addr)" where
  "AND3 ev s ct1 ct2 ct3 =
     (case AND_gate ev s ct1 ct2 of
        (s, Inl err) \<Rightarrow> (s, Inl err)
      | (s, Inr ab) \<Rightarrow> AND_gate ev s ab ct3)"

definition OR3 :: "Evaluator \<Rightarrow> store \<Rightarrow> addr \<Rightarrow> addr \<Rightarrow> addr \<Rightarrow> store \<times> (error + addr)" where
  "OR3 ev s ct1 ct2 ct3 =
     (case OR_gate ev s ct1 ct2 of
        (s, Inl err) \<Rightarrow> (s, Inl err)
      | (s, Inr ab) \<Rightarrow> OR_gate ev s ab ct3)"

definition MAJORITY :: "Evaluator \<Rightarrow> store \<Rightarrow> addr \<Rightarrow> addr \<Rightarrow> addr \<Rightarrow> store \<times> (error + addr)" where
  "MAJORITY ev s ct1 ct2 ct3 =
     (let (s, sum) = addCiphertexts ev s ct1 ct2;
          (s, sum) = addCiphertexts ev s sum ct3
      in bootstrap ev s sum (TestPolyMAJORITY ev))"

definition NAND3 :: "Evaluator \<Rightarrow> store \<Rightarrow> addr \<Rightarrow> addr \<Rightarrow> addr \<Rightarrow> store \<times> (error + addr)" where
  "NAND3 ev s ct1 ct2 ct3 =
     (case AND3 ev s ct1 ct2 ct3 of
        (s, Inl err) \<Rightarrow> (s, Inl err)
      | (s, Inr result) \<Rightarrow> (let (s, r) = NOT_gate ev s result in (s, Inr r)))"

definition NOR3 :: "Evaluator \<Rightarrow> store \<Rightarrow> addr \<Rightarrow> addr \<Rightarrow> addr \<Rightarrow> store \<times> (error + addr)" where
  "NOR3 ev s ct1 ct2 ct3 =
     (case OR3 ev s ct1 ct2 ct3 of
        (s, Inl err) \<Rightarrow> (s, Inl err)
      | (s, Inr result) \<Rightarrow> (let (s, r) = NOT_gate ev s result in (s, Inr r)))"

definition Copy :: "Evaluator \<Rightarrow> store \<Rightarrow> addr \<Rightarrow> store \<times> addr" where
  "Copy ev s ct = CopyNew s ct"

definition Refresh :: "Evaluator \<Rightarrow> store \<Rightarrow> addr \<Rightarrow> store \<times> (error + addr)" where
  "Refresh ev s ct = bootstrap ev s ct (TestPolyID ev)"

section \<open>Sample extraction on the GPU (\<open>ExternalProductContext.SampleExtract\<close>)\<close>

text \<open>
  One row of the batch: \<open>lweB\<close> is coefficient 0 of \<open>rlweB\<close>; position \<open>i\<close> of \<open>lweA\<close>
  reads index \<open>0\<close> with sign \<open>1\<close> for \<open>i = 0\<close> and index \<open>N - i\<close> with sign \<open>-1\<close>
  otherwise, and \<open>Q\<close> is added to a negative product.
\<close>

definition SampleExtract_row :: "nat \<Rightarrow> int \<Rightarrow> int list \<Rightarrow> int list \<Rightarrow> int list \<times> int" where
  "SampleExtract_row N Q rlweA rlweB =
     (let lweB = rlweB ! 0;
          lweA = map (\<lambda>i.
                   let index = (if i = 0 then 0 else N - i);
                       sign = (if i = 0 then 1 else - 1);
                       v = (rlweA ! index) * sign
                   in if v < 0 then v + Q else v) [0..<N]
      in (lweA, lweB))"

definition SampleExtract :: "nat \<Rightarrow> int \<Rightarrow> int list list \<Rightarrow> int list list \<Rightarrow> int list list \<times> int list" where
  "SampleExtract N Q rlweA rlweB =
     (map (\<lambda>b. fst (SampleExtract_row N Q (rlweA ! b) (rlweB ! b))) [0..<length rlweA],
      map (\<lambda>b. snd (SampleExtract_row N Q (rlweA ! b) (rlweB ! b))) [0..<length rlweA])"

subsection \<open>What a call may change\<close>

text \<open>
  \<open>frame b s s'\<close>: the store \<open>s'\<close> agrees with \<open>s\<close> at every address below \<open>b\<close> and
  has not given back an address.  With \<open>b = fresh s\<close> the addresses below \<open>b\<close> are
  everything that existed in \<open>s\<close>.
\<close>

definition frame :: "addr \<Rightarrow> store \<Rightarrow> store \<Rightarrow> bool" where
  "frame b s s' = (fresh s \<le> fresh s' \<and> (\<forall>a<b. mem s' a = mem s a))"

text \<open>
  A ciphertext whose three objects (the struct and its two coefficient buffers) lie at or
  above \<open>b\<close>, the buffers apart from the struct.
\<close>

definition own_ct :: "addr \<Rightarrow> store \<Rightarrow> addr \<Rightarrow> bool" where
  "own_ct b s r = (b \<le> r \<and> b \<le> Value s r 0 \<and> b \<le> Value s r 1
                   \<and> Value s r 0 \<noteq> r \<and> Value s r 1 \<noteq> r)"

text \<open>A ciphertext that exists in \<open>s\<close>: the struct and both buffers have been allocated.\<close>

definition allocated :: "store \<Rightarrow> addr \<Rightarrow> bool" where
  "allocated s ct = (ct < fresh s \<and> Value s ct 0 < fresh s \<and> Value s ct 1 < fresh s)"

text \<open>
  \<open>kept s s' ct\<close>: the ciphertext \<open>ct\<close> has in \<open>s'\<close> the buffers, the coefficient vectors
  and the \<open>IsNTT\<close> flag it has in \<open>s\<close>.
\<close>

definition kept :: "store \<Rightarrow> store \<Rightarrow> addr \<Rightarrow> bool" where
  "kept s s' ct =
     (Value s' ct 0 = Value s ct 0 \<and> Value s' ct 1 = Value s ct 1
      \<and> coeffs_at s' (Value s' ct 0) = coeffs_at s (Value s ct 0)
      \<and> coeffs_at s' (Value s' ct 1) = coeffs_at s (Value s ct 1)
      \<and> IsNTT s' ct = IsNTT s ct)"

text \<open>
  What is assumed of the library's blind rotation: it gives back no address, and it writes
  only to the ciphertext it is given and to addresses it allocates.
\<close>

definition Evaluate_frame :: "(store \<Rightarrow> addr \<Rightarrow> coeffs \<Rightarrow> store \<times> (error + addr option)) \<Rightarrow> bool" where
  "Evaluate_frame f =
     (\<forall>s ct tp. fresh s \<le> fresh (fst (f s ct tp))
        \<and> (\<forall>a<fresh s. a \<noteq> ct \<and> a \<noteq> Value s ct 0 \<and> a \<noteq> Value s ct 1
              \<longrightarrow> mem (fst (f s ct tp)) a = mem s a))"

subsection \<open>An evaluator and a store to instantiate with\<close>

text \<open>
  Modelled from the spec: the ring arithmetic of the lattice library (\<open>ring.Add\<close>,
  \<open>ring.Neg\<close>), which is not part of this repository.  The spec has every arithmetic wrap
  modular: addition and negation are coefficient-wise modulo the ring modulus.
\<close>

definition Zq_Add :: "64 word \<Rightarrow> coeffs \<Rightarrow> coeffs \<Rightarrow> coeffs" where
  "Zq_Add q a b = map2 (\<lambda>x y. (x + y) mod q) a b"

definition Zq_Neg :: "64 word \<Rightarrow> coeffs \<Rightarrow> coeffs" where
  "Zq_Neg q a = map (\<lambda>x. (q - x) mod q) a"

text \<open>
  An evaluator over \<open>Z\<^sub>1\<^sub>7[X]/(X\<^sup>4 + 1)\<close>.  Its transforms, blind rotation and key switch
  are stand-ins (the identity, a copy of the argument at fresh addresses, the identity):
  the theorems below hold for every choice of them, and this one serves to instantiate
  them at a concrete input.
\<close>

definition example_Evaluate :: "store \<Rightarrow> addr \<Rightarrow> coeffs \<Rightarrow> store \<times> (error + addr option)" where
  "example_Evaluate s ct tp = (let (s', r) = CopyNew s ct in (s', Inr (Some r)))"

definition example_evaluator :: Evaluator where
  "example_evaluator =
     \<lparr> N_LWE = 4, QLWE = 17, N_BR = 4, QBR = 17, KSK_present = True,
       TestPolyAND = [0, 0, 0, 0], TestPolyOR = [0, 0, 0, 0], TestPolyXOR = [0, 0, 0, 0],
       TestPolyNAND = [0, 0, 0, 0], TestPolyNOR = [0, 0, 0, 0], TestPolyXNOR = [0, 0, 0, 0],
       TestPolyMAJORITY = [0, 0, 0, 0], TestPolyID = [0, 0, 0, 0],
       ringQLWE_Add = Zq_Add 17, ringQLWE_Neg = Zq_Neg 17,
       ringQLWE_NTT = (\<lambda>c. c), ringQLWE_INTT = (\<lambda>c. c),
       ringQBR_NTT = (\<lambda>c. c), ringQBR_INTT = (\<lambda>c. c),
       blindrot_Evaluate = example_Evaluate,
       ApplyEvaluationKey = (\<lambda>v0 v1. Inr (v0, v1, True)) \<rparr>"

text \<open>
  A store with two ciphertexts in coefficient form: the struct at address 2 with buffers
  at 0 and 1, and the struct at address 5 with buffers at 3 and 4.
\<close>

definition example_store :: store where
  "example_store =
     \<lparr> mem = (\<lambda>a. None)(0 \<mapsto> Coeffs [1, 2, 3, 4], 1 \<mapsto> Coeffs [5, 0, 16, 2],
                         2 \<mapsto> Ct [0, 1] False,
                         3 \<mapsto> Coeffs [4, 4, 0, 1], 4 \<mapsto> Coeffs [7, 8, 9, 10],
                         5 \<mapsto> Ct [3, 4] False),
       fresh = 6 \<rparr>"

text \<open>The two coefficient vectors of the ciphertext a call returns.\<close>

definition polys_of :: "store \<times> addr \<Rightarrow> coeffs \<times> coeffs" where
  "polys_of p = (coeffs_at (fst p) (Value (fst p) (snd p) 0),
                 coeffs_at (fst p) (Value (fst p) (snd p) 1))"

section \<open>Integer circuits\<close>

text \<open>
  Modelled from the spec: the bitwise codec and the integer layer's \<open>Add\<close>
  (\<open>BitwiseEncryptor.EncryptUint64\<close>, \<open>BitwiseDecryptor.DecryptUint64\<close> and
  \<open>BitwiseEvaluator.Add\<close>), which the repository's tests call and whose code is not among
  the source files.  An \<open>IntegerCiphertext<w>\<close> is the list of its \<open>w\<close> bit ciphertexts,
  least significant first.  The bit layer is a parameter: a type \<open>'c\<close> of bit ciphertexts
  with the gates XOR and MAJORITY, which may fail, and an encryption of zero for the
  initial carry.
\<close>

record 'c BitEvaluator =
  gate_XOR :: "'c \<Rightarrow> 'c \<Rightarrow> error + 'c"
  gate_MAJORITY :: "'c \<Rightarrow> 'c \<Rightarrow> 'c \<Rightarrow> error + 'c"
  enc_zero :: 'c

text \<open>
  Modelled from the spec: "encode an unsigned integer \<open>x < 2\<^sup>w\<close> as
  \<open>[enc(bit\<^sub>0), ..., enc(bit\<^sub>w\<^sub>-\<^sub>1)]\<close> (little-endian), and decode inverse".
\<close>

fun EncryptUint :: "(bool \<Rightarrow> 'c) \<Rightarrow> nat \<Rightarrow> nat \<Rightarrow> 'c list" where
  "EncryptUint enc 0 x = []"
| "EncryptUint enc (Suc w) x = enc (odd x) # EncryptUint enc w (x div 2)"

fun DecryptUint :: "('c \<Rightarrow> bool) \<Rightarrow> 'c list \<Rightarrow> nat" where
  "DecryptUint dec [] = 0"
| "DecryptUint dec (c # cs) = (if dec c then 1 else 0) + 2 * DecryptUint dec cs"

text \<open>
  Modelled from the spec: "ripple-carry.  For each bit \<open>i\<close>:
  \<open>s\<^sub>i = a\<^sub>i XOR b\<^sub>i XOR carry\<close>; \<open>carry = MAJORITY(a\<^sub>i, b\<^sub>i, carry)\<close>.  Initial carry is
  encrypted zero ... last bit omits carry", least significant bit first, the first gate
  to fail returning its error; "width mismatch \<open>\<Rightarrow>\<close> WidthMismatch".
\<close>

fun ripple :: "'c BitEvaluator \<Rightarrow> 'c \<Rightarrow> 'c list \<Rightarrow> 'c list \<Rightarrow> error + 'c list" where
  "ripple E carry [] [] = Inr []"
| "ripple E carry (a # as) (b # bs) =
     (case gate_XOR E a b of
        Inl e \<Rightarrow> Inl e
      | Inr t \<Rightarrow>
          (case gate_XOR E t carry of
             Inl e \<Rightarrow> Inl e
           | Inr s \<Rightarrow>
               if as = [] \<and> bs = [] then Inr [s]
               else
                 (case gate_MAJORITY E a b carry of
                    Inl e \<Rightarrow> Inl e
                  | Inr carry' \<Rightarrow>
                      (case ripple E carry' as bs of
                         Inl e \<Rightarrow> Inl e
                       | Inr rest \<Rightarrow> Inr (s # rest)))))"
| "ripple E carry as bs = Inl WidthMismatch"

definition Add :: "'c BitEvaluator \<Rightarrow> 'c list \<Rightarrow> 'c list \<Rightarrow> error + 'c list" where
  "Add E a b = (if length a \<noteq> length b then Inl WidthMismatch else ripple E (enc_zero E) a b)"

text \<open>
  What the integer layer takes from the bit layer (the spec's gate law
  \<open>decrypt(Eval\<^sub>g(enc(a), enc(b))) = g(a, b)\<close>): XOR and MAJORITY return a ciphertext that
  decrypts to the gate's value, and the encrypted zero decrypts to false.
\<close>

definition gates_decrypt :: "('c \<Rightarrow> bool) \<Rightarrow> 'c BitEvaluator \<Rightarrow> bool" where
  "gates_decrypt dec E =
     ((\<forall>x y. \<exists>z. gate_XOR E x y = Inr z \<and> dec z = (dec x \<noteq> dec y))
      \<and> (\<forall>x y c. \<exists>z. gate_MAJORITY E x y c = Inr z
                    \<and> dec z = ((dec x \<and> dec y) \<or> (dec x \<and> dec c) \<or> (dec y \<and> dec c)))
      \<and> \<not> dec (enc_zero E))"

text \<open>The bit layer on plaintext bits, to instantiate with.\<close>

definition plain_evaluator :: "bool BitEvaluator" where
  "plain_evaluator =
     \<lparr> gate_XOR = (\<lambda>x y. Inr (x \<noteq> y)),
       gate_MAJORITY = (\<lambda>x y c. Inr ((x \<and> y) \<or> (x \<and> c) \<or> (y \<and> c))),
       enc_zero = False \<rparr>"

text \<open>The value of a bit.\<close>

definition bit_val :: "bool \<Rightarrow> nat" where
  "bit_val b = (if b then 1 else 0)"

section \<open>The number-theoretic transform on the GPU (\<open>gpu/ntt.go\<close>)\<close>

subsection \<open>Arrays and the MLX library\<close>

text \<open>
  An \<open>*mlx.Array\<close> is its shape, its element type and its elements in row-major order.
  A shape is a Go \<open>[]int\<close>.  The elements are integers; a \<open>float32\<close> mask entry of the
  source is \<open>0.0\<close> or \<open>1.0\<close> and is kept as \<open>0\<close> or \<open>1\<close>.
\<close>

datatype Dtype = Int64 | Int32 | Float32 | Bool

record Array =
  shape :: "int list"
  dtype :: Dtype
  elems :: "int list"

text \<open>
  The library \<open>github.com/luxfi/mlx\<close> is outside the repository.  \<open>mlx.Zeros\<close> and
  \<open>mlx.ArrayFromSlice\<close> build an array from a shape; \<open>mlx.Add\<close> and \<open>mlx.Multiply\<close> are
  parameters, so that a theorem holds whatever the library computes (and however it
  broadcasts); \<open>mlx.Eval\<close> changes no value and is left out.
\<close>

definition mlx_Zeros :: "int list \<Rightarrow> Dtype \<Rightarrow> Array" where
  "mlx_Zeros sh dt = \<lparr> shape = sh, dtype = dt, elems = replicate (nat (prod_list sh)) 0 \<rparr>"

definition mlx_ArrayFromSlice :: "int list \<Rightarrow> int list \<Rightarrow> Dtype \<Rightarrow> Array" where
  "mlx_ArrayFromSlice xs sh dt = \<lparr> shape = sh, dtype = dt, elems = xs \<rparr>"

record MLX =
  mlx_Add :: "Array \<Rightarrow> Array \<Rightarrow> Array"
  mlx_Multiply :: "Array \<Rightarrow> Array \<Rightarrow> Array"

subsection \<open>The package's own array operations\<close>

text \<open>
  \<open>ntt.go\<close> binds \<open>mlxShape\<close>, \<open>mlxReshape\<close>, \<open>mlxSlice\<close>, \<open>mlxTake\<close>, \<open>mlxTile\<close>,
  \<open>mlxSubtract\<close>, \<open>mlxRemainder\<close>, \<open>mlxGreaterEqual\<close>, \<open>mlxWhere\<close>, \<open>mlxFull\<close>,
  \<open>mlxAsType\<close> and \<open>mlxAsSlice\<close> to the functions \<open>Shape\<close>, \<open>Reshape\<close>, ... of package
  \<open>gpu\<close> itself.  Each of these computes the shape of its result and returns
  \<open>mlx.Zeros\<close> of that shape ("placeholder", in the source's words); \<open>Reshape\<close> returns
  its argument when the shape does not change, \<open>Slice\<close> and \<open>Take\<close> return theirs when
  the ranks do not fit.  Go's \<open>/\<close> on \<open>int\<close> truncates towards zero.
\<close>

definition go_div :: "int \<Rightarrow> int \<Rightarrow> int" where
  "go_div a b = sgn a * sgn b * (\<bar>a\<bar> div \<bar>b\<bar>)"

definition Shape :: "Array \<Rightarrow> int list" where
  "Shape a = shape a"

definition equalShapes :: "int list \<Rightarrow> int list \<Rightarrow> bool" where
  "equalShapes a b = (a = b)"

definition Reshape :: "Array \<Rightarrow> int list \<Rightarrow> Array" where
  "Reshape a newShape =
     (if equalShapes (shape a) newShape then a else mlx_Zeros newShape Int64)"

definition Slice :: "Array \<Rightarrow> int list \<Rightarrow> int list \<Rightarrow> int list \<Rightarrow> Array" where
  "Slice a start stop step =
     (if length start \<noteq> length (shape a) then a
      else mlx_Zeros (map (\<lambda>i. go_div (stop ! i - start ! i + step ! i - 1) (step ! i))
                        [0..<length (shape a)]) Int64)"

definition Take :: "Array \<Rightarrow> Array \<Rightarrow> nat \<Rightarrow> Array" where
  "Take a indices axis =
     (if length (shape indices) = 0 \<or> length (shape a) = 0 then a
      else mlx_Zeros (map (\<lambda>i. if i = axis then shape indices ! 0 else shape a ! i)
                        [0..<length (shape a)]) Int64)"

definition Tile :: "Array \<Rightarrow> int list \<Rightarrow> Array" where
  "Tile a reps =
     (let reps = replicate (length (shape a) - length reps) 1 @ reps
      in mlx_Zeros (map (\<lambda>i. if i < length reps then shape a ! i * reps ! i else shape a ! i)
                      [0..<length (shape a)]) Int64)"

definition Negative :: "Array \<Rightarrow> Array" where
  "Negative a = mlx_Zeros (shape a) Int64"

definition Subtract :: "MLX \<Rightarrow> Array \<Rightarrow> Array \<Rightarrow> Array" where
  "Subtract lib a b = mlx_Add lib a (Negative b)"

definition Remainder :: "Array \<Rightarrow> Array \<Rightarrow> Array" where
  "Remainder a b = mlx_Zeros (shape a) Int64"

definition GreaterEqual :: "Array \<Rightarrow> Array \<Rightarrow> Array" where
  "GreaterEqual a b = mlx_Zeros (shape a) Bool"

definition Where :: "Array \<Rightarrow> Array \<Rightarrow> Array \<Rightarrow> Array" where
  "Where condition x y = mlx_Zeros (shape x) Int64"

definition Full :: "int list \<Rightarrow> int \<Rightarrow> Dtype \<Rightarrow> Array" where
  "Full sh v dt = mlx_Zeros sh dt"

definition AsType :: "Array \<Rightarrow> Dtype \<Rightarrow> Array" where
  "AsType a dt = mlx_Zeros (shape a) dt"

text \<open>\<open>AsSlice\<close> returns a fresh Go slice of as many elements as the array has: zeros.\<close>

definition AsSlice :: "Array \<Rightarrow> int list" where
  "AsSlice a = replicate (nat (prod_list (shape a))) 0"

subsection \<open>The context\<close>

text \<open>
  The fields of \<open>NTTContext\<close> the transforms read.  \<open>N\<close> is a uint32, \<open>Q\<close> a uint64 and
  \<open>Log2N\<close> the number of stages, at most 32 for a uint32 \<open>N\<close>, so that the shifts
  \<open>1 << (stage + 1)\<close> of the transforms do not overflow.  \<open>wrap64\<close> is the conversion
  \<open>int64(ctx.Q)\<close>.
\<close>

record NTTContext =
  ntt_N :: nat
  ntt_Q :: int
  Log2N :: nat
  twiddleFactors :: Array
  invTwiddleFactors :: Array
  nInvArray :: Array
  bitRevIndices :: Array

definition wrap64 :: "int \<Rightarrow> int" where
  "wrap64 x = (x + 2 ^ 63) mod 2 ^ 64 - 2 ^ 63"

subsection \<open>Helper functions\<close>

definition addModArray :: "MLX \<Rightarrow> Array \<Rightarrow> Array \<Rightarrow> int \<Rightarrow> Array" where
  "addModArray lib a b Q =
     (let sum = mlx_Add lib a b;
          qArr = Full (Shape sum) Q Int64;
          mask = GreaterEqual sum qArr;
          reduced = Subtract lib sum qArr
      in Where mask reduced sum)"

definition subModArray :: "MLX \<Rightarrow> Array \<Rightarrow> Array \<Rightarrow> int \<Rightarrow> Array" where
  "subModArray lib a b Q =
     (let qArr = Full (Shape a) Q Int64;
          diff = Subtract lib a b;
          diffPlus = mlx_Add lib diff qArr;
          mask = GreaterEqual a b
      in Where mask diff diffPlus)"

definition barrettMulModArray :: "MLX \<Rightarrow> Array \<Rightarrow> Array \<Rightarrow> int \<Rightarrow> Array" where
  "barrettMulModArray lib a b Q =
     (let prod = mlx_Multiply lib a b;
          qArr = Full (Shape prod) Q Int64
      in Remainder prod qArr)"

text \<open>
  \<open>butterflyScatter\<close>.  The index arrays are read through \<open>AsSlice\<close>; the loop records
  for every position the butterfly that writes it and whether the sum does
  (\<open>scatter_step\<close> is one iteration); the two masks and the permutation go back into
  arrays, the values are gathered with \<open>Take\<close> and combined with the library's
  \<open>Multiply\<close> and \<open>Add\<close>.  The arguments \<open>coeffs\<close> and the first \<open>result\<close> are not read.
\<close>

definition scatter_step :: "int list \<Rightarrow> int list \<Rightarrow> nat \<Rightarrow> int list \<times> bool list \<Rightarrow> int list \<times> bool list" where
  "scatter_step leftIdx rightIdx i st =
     (let (invPerm, isFromSum) = st;
          invPerm = invPerm[nat (leftIdx ! i) := int i];
          isFromSum = isFromSum[nat (leftIdx ! i) := True];
          invPerm = invPerm[nat (rightIdx ! i) := int i];
          isFromSum = isFromSum[nat (rightIdx ! i) := False]
      in (invPerm, isFromSum))"

definition butterflyScatter ::
  "MLX \<Rightarrow> Array \<Rightarrow> Array \<Rightarrow> Array \<Rightarrow> Array \<Rightarrow> Array \<Rightarrow> int \<Rightarrow> nat \<Rightarrow> Array" where
  "butterflyScatter lib coeffs sumVals diffVals leftIdxArr rightIdxArr batchSize N =
     (let numButterflies = N div 2;
          leftIdx = AsSlice leftIdxArr;
          rightIdx = AsSlice rightIdxArr;
          (invPerm, isFromSum) =
             fold (scatter_step leftIdx rightIdx) [0..<numButterflies]
               (replicate N 0, replicate N False);
          sumMask = map (\<lambda>i. if isFromSum ! i then 1 else 0) [0..<N];
          diffMask = map (\<lambda>i. if isFromSum ! i then 0 else 1) [0..<N];
          sumMaskArr = mlx_ArrayFromSlice sumMask [1, int N] Float32;
          diffMaskArr = mlx_ArrayFromSlice diffMask [1, int N] Float32;
          sumPermIdxArr = mlx_ArrayFromSlice (map (\<lambda>i. invPerm ! i) [0..<N]) [int N] Int32;
          diffPermIdxArr = mlx_ArrayFromSlice (map (\<lambda>i. invPerm ! i) [0..<N]) [int N] Int32;
          sumExpanded = Take sumVals sumPermIdxArr 1;
          diffExpanded = Take diffVals diffPermIdxArr 1;
          sumMaskInt = AsType sumMaskArr Int64;
          diffMaskInt = AsType diffMaskArr Int64;
          sumMasked = mlx_Multiply lib sumExpanded (Tile sumMaskInt [batchSize, 1]);
          diffMasked = mlx_Multiply lib diffExpanded (Tile diffMaskInt [batchSize, 1])
      in mlx_Add lib sumMasked diffMasked)"

text \<open>The index lists the two nested loops over \<open>g\<close> and \<open>j\<close> build.\<close>

definition leftIndices :: "nat \<Rightarrow> nat \<Rightarrow> nat \<Rightarrow> int list" where
  "leftIndices numGroups m mHalf =
     concat (map (\<lambda>g. map (\<lambda>j. int (g * m + j)) [0..<mHalf]) [0..<numGroups])"

definition rightIndices :: "nat \<Rightarrow> nat \<Rightarrow> nat \<Rightarrow> int list" where
  "rightIndices numGroups m mHalf =
     concat (map (\<lambda>g. map (\<lambda>j. int (g * m + j + mHalf)) [0..<mHalf]) [0..<numGroups])"

subsection \<open>The transforms\<close>

text \<open>
  One stage of \<open>NTTForward\<close>: the body of its loop, on the coefficients and the twiddle
  offset the loop carries.
\<close>

definition forward_stage :: "MLX \<Rightarrow> NTTContext \<Rightarrow> int \<Rightarrow> nat \<Rightarrow> Array \<times> nat \<Rightarrow> Array \<times> nat" where
  "forward_stage lib ctx batchSize stage st =
     (let (coeffs, twiddleOffset) = st;
          N = ntt_N ctx;
          Q = wrap64 (ntt_Q ctx);
          m = 2 ^ (stage + 1);
          mHalf = m div 2;
          numGroups = N div m;
          stageTwiddles = Slice (twiddleFactors ctx) [int twiddleOffset]
                            [int (twiddleOffset + mHalf)] [1];
          twiddleOffset = twiddleOffset + mHalf;
          tiledTwiddles = Tile (Reshape stageTwiddles [1, int mHalf]) [int numGroups, 1];
          tiledTwiddles = Reshape tiledTwiddles [int (N div 2)];
          tiledTwiddles = Tile (Reshape tiledTwiddles [1, int (N div 2)]) [batchSize, 1];
          leftIdxArr = mlx_ArrayFromSlice (leftIndices numGroups m mHalf) [int (N div 2)] Int32;
          rightIdxArr = mlx_ArrayFromSlice (rightIndices numGroups m mHalf) [int (N div 2)] Int32;
          u = Take coeffs leftIdxArr 1;
          vRaw = Take coeffs rightIdxArr 1;
          v = barrettMulModArray lib vRaw tiledTwiddles Q;
          sum = addModArray lib u v Q;
          diff = subModArray lib u v Q
      in (butterflyScatter lib coeffs sum diff leftIdxArr rightIdxArr batchSize N,
          twiddleOffset))"

text \<open>
  \<open>NTTForward\<close>.  An input of rank 1 gets a batch dimension; \<open>batchSize\<close> is \<open>shape[0]\<close>
  (the source panics there on an array of rank 0, where the model leaves the batch size
  unspecified); the bit reversal is a \<open>Take\<close>; a batch of one row loses its batch
  dimension at the end.
\<close>

definition NTTForward :: "MLX \<Rightarrow> NTTContext \<Rightarrow> Array \<Rightarrow> Array" where
  "NTTForward lib ctx input0 =
     (let N = ntt_N ctx;
          shape0 = Shape input0;
          input = (if length shape0 = 1 then Reshape input0 [1, int N] else input0);
          shape1 = (if length shape0 = 1 then [1, int N] else shape0);
          batchSize = shape1 ! 0;
          coeffs = Take input (bitRevIndices ctx) 1;
          coeffs = fst (fold (forward_stage lib ctx batchSize) [0..<Log2N ctx] (coeffs, 0))
      in if batchSize = 1 \<and> length (Shape coeffs) > 1 \<and> Shape coeffs ! 0 = 1
         then Reshape coeffs [int N] else coeffs)"

text \<open>
  One stage of \<open>NTTInverse\<close>; the twiddle offset is a signed \<open>int\<close> that starts at
  \<open>N - 2\<close>.
\<close>

definition inverse_stage :: "MLX \<Rightarrow> NTTContext \<Rightarrow> int \<Rightarrow> nat \<Rightarrow> Array \<times> int \<Rightarrow> Array \<times> int" where
  "inverse_stage lib ctx batchSize stage st =
     (let (coeffs, twiddleOffset) = st;
          N = ntt_N ctx;
          Q = wrap64 (ntt_Q ctx);
          m = 2 ^ (stage + 1);
          mHalf = m div 2;
          numGroups = N div m;
          stageTwiddles = Slice (invTwiddleFactors ctx) [twiddleOffset - int mHalf + 1]
                            [twiddleOffset + 1] [1];
          twiddleOffset = twiddleOffset - int mHalf;
          tiledTwiddles = Tile (Reshape stageTwiddles [1, int mHalf]) [int numGroups, 1];
          tiledTwiddles = Reshape tiledTwiddles [int (N div 2)];
          tiledTwiddles = Tile (Reshape tiledTwiddles [1, int (N div 2)]) [batchSize, 1];
          leftIdxArr = mlx_ArrayFromSlice (leftIndices numGroups m mHalf) [int (N div 2)] Int32;
          rightIdxArr = mlx_ArrayFromSlice (rightIndices numGroups m mHalf) [int (N div 2)] Int32;
          u = Take coeffs leftIdxArr 1;
          v = Take coeffs rightIdxArr 1;
          sum = addModArray lib u v Q;
          diff = subModArray lib u v Q;
          diffScaled = barrettMulModArray lib diff tiledTwiddles Q
      in (butterflyScatter lib coeffs sum diffScaled leftIdxArr rightIdxArr batchSize N,
          twiddleOffset))"

definition NTTInverse :: "MLX \<Rightarrow> NTTContext \<Rightarrow> Array \<Rightarrow> Array" where
  "NTTInverse lib ctx input0 =
     (let N = ntt_N ctx;
          Q = wrap64 (ntt_Q ctx);
          shape0 = Shape input0;
          input = (if length shape0 = 1 then Reshape input0 [1, int N] else input0);
          shape1 = (if length shape0 = 1 then [1, int N] else shape0);
          batchSize = shape1 ! 0;
          coeffs = fst (fold (inverse_stage lib ctx batchSize) (rev [0..<Log2N ctx])
                          (input, int N - 2));
          coeffs = Take coeffs (bitRevIndices ctx) 1;
          nInvBroadcast = Tile (nInvArray ctx) [batchSize, int N];
          coeffs = barrettMulModArray lib coeffs nInvBroadcast Q
      in if batchSize = 1 \<and> length (Shape coeffs) > 1 \<and> Shape coeffs ! 0 = 1
         then Reshape coeffs [int N] else coeffs)"

subsection \<open>An instance for evaluation\<close>

text \<open>
  A library that adds and multiplies element by element, an operand of a single element
  being broadcast over the other, and the context of \<open>N = 4\<close>, \<open>Q = 17\<close> with the root
  \<open>9\<close> of order \<open>8\<close>: the powers \<open>1\<close>, \<open>1\<close>, \<open>9\<close> and their inverses stage by stage,
  \<open>4\<^sup>-\<^sup>1 = 13\<close> and the reversal of two bits.
\<close>

definition example_binop :: "(int \<Rightarrow> int \<Rightarrow> int) \<Rightarrow> Array \<Rightarrow> Array \<Rightarrow> Array" where
  "example_binop f a b =
     (if length (elems b) = 1
      then \<lparr> shape = shape a, dtype = dtype a, elems = map (\<lambda>x. f x (hd (elems b))) (elems a) \<rparr>
      else if length (elems a) = 1
      then \<lparr> shape = shape b, dtype = dtype b, elems = map (\<lambda>y. f (hd (elems a)) y) (elems b) \<rparr>
      else \<lparr> shape = shape a, dtype = dtype a, elems = map2 f (elems a) (elems b) \<rparr>)"

definition example_mlx :: MLX where
  "example_mlx = \<lparr> mlx_Add = example_binop (\<lambda>x y. wrap64 (x + y)),
                   mlx_Multiply = example_binop (\<lambda>x y. wrap64 (x * y)) \<rparr>"

definition example_ctx :: NTTContext where
  "example_ctx =
     \<lparr> ntt_N = 4, ntt_Q = 17, Log2N = 2,
       twiddleFactors = mlx_ArrayFromSlice [1, 1, 9] [3] Int64,
       invTwiddleFactors = mlx_ArrayFromSlice [1, 1, 2] [3] Int64,
       nInvArray = mlx_ArrayFromSlice [13] [1] Int64,
       bitRevIndices = mlx_ArrayFromSlice [0, 2, 1, 3] [4] Int32 \<rparr>"

section \<open>Negacyclic rule\<close>

text \<open>
  C6, \<open>polyRotate\<close>.  In the ring with \<open>N = 4\<close> and \<open>Q = 17\<close> the rotation of
  \<open>1 + 2X + 3X\<^sup>2 + 4X\<^sup>3\<close> by \<open>k = 5\<close> is computed as the rotation by \<open>1\<close>,
  \<open>[13, 1, 2, 3]\<close>, because \<open>k\<close> is reduced modulo \<open>N\<close>; the negacyclic rule asks for
  its negation \<open>[4, 16, 15, 14]\<close>.
\<close>

theorem polyRotate_loses_sign:
  "polyRotate_row 4 17 [1, 2, 3, 4] 5 = [13, 1, 2, 3]
   \<and> polyRotate_row 4 17 [1, 2, 3, 4] 1 = [13, 1, 2, 3]
   \<and> polyRotate 4 17 [[1, 2, 3, 4], [1, 2, 3, 4]] [5, 1] 2 = [[13, 1, 2, 3], [13, 1, 2, 3]]"
  by code_simp

section \<open>Sample extraction\<close>

lemma fold_update_length: "length (fold (\<lambda>i v. v[i := f i]) js v) = length v"
  by (induction js arbitrary: v) simp_all

lemma fold_update_other:
  "i \<notin> set js \<Longrightarrow> fold (\<lambda>i v. v[i := f i]) js v ! i = v ! i"
  by (induction js arbitrary: v) auto

lemma fold_update_hit:
  "i \<in> set js \<Longrightarrow> i < length v \<Longrightarrow> fold (\<lambda>i v. v[i := f i]) js v ! i = f i"
proof (induction js arbitrary: v)
  case Nil
  then show ?case by simp
next
  case (Cons j js)
  show ?case
  proof (cases "i \<in> set js")
    case True
    then show ?thesis using Cons by simp
  next
    case False
    then have "i = j" using Cons.prems by simp
    then show ?thesis using False Cons.prems by (simp add: fold_update_other)
  qed
qed

text \<open>What the evaluator's extraction writes, position by position.\<close>

lemma sampleExtract_b:
  "0 < length value0 \<Longrightarrow> fst (sampleExtract NBR qBR c0 c1 value0 value1) ! 0 = c0 ! 0"
  by (simp add: sampleExtract_def Let_def fold_update_other)

lemma sampleExtract_b_rest:
  "1 \<le> i \<Longrightarrow> i < NBR \<Longrightarrow> length value0 = NBR
   \<Longrightarrow> fst (sampleExtract NBR qBR c0 c1 value0 value1) ! i = 0"
  by (simp add: sampleExtract_def Let_def fold_update_hit)

lemma sampleExtract_a0:
  "0 < length value1 \<Longrightarrow> snd (sampleExtract NBR qBR c0 c1 value0 value1) ! 0 = c1 ! 0"
  by (simp add: sampleExtract_def Let_def fold_update_other)

lemma sampleExtract_ai:
  "1 \<le> i \<Longrightarrow> i < NBR \<Longrightarrow> length value1 = NBR
   \<Longrightarrow> snd (sampleExtract NBR qBR c0 c1 value0 value1) ! i = qBR - c1 ! (NBR - i)"
  by (simp add: sampleExtract_def Let_def fold_update_hit)

text \<open>
  For a coefficient below \<open>qBR\<close> the value written is \<open>qBR - c1[NBR - i]\<close> as an integer:
  congruent to the negation, in \<open>(0, qBR]\<close>, and equal to \<open>qBR\<close> itself for the
  coefficient \<open>0\<close>.
\<close>

lemma sampleExtract_ai_uint:
  assumes "1 \<le> i" "i < NBR" "length value1 = NBR" "c1 ! (NBR - i) < qBR"
  shows "uint (snd (sampleExtract NBR qBR c0 c1 value0 value1) ! i)
         = uint qBR - uint (c1 ! (NBR - i))"
  using assms by (simp add: sampleExtract_ai uint_sub_if' word_less_def word_le_def)

text \<open>
  The GPU extraction writes the reduced negation: for a coefficient in \<open>[0, Q)\<close> the value
  at position \<open>i \<ge> 1\<close> is \<open>(- rlweA[N - i]) mod Q\<close>.
\<close>

lemma SampleExtract_row_exact:
  assumes "1 \<le> i" "i < N" "0 \<le> rlweA ! (N - i)" "rlweA ! (N - i) < Q"
  shows "fst (SampleExtract_row N Q rlweA rlweB) ! i = (- (rlweA ! (N - i))) mod Q"
proof (cases "rlweA ! (N - i) = 0")
  case True
  then show ?thesis using assms by (simp add: SampleExtract_row_def Let_def)
next
  case False
  then have "(- (rlweA ! (N - i))) mod Q = Q - rlweA ! (N - i)"
    using assms by (simp add: zmod_zminus1_eq_if)
  then show ?thesis using assms False by (simp add: SampleExtract_row_def Let_def)
qed

lemma SampleExtract_row_first:
  "0 < N \<Longrightarrow> 0 \<le> rlweA ! 0
   \<Longrightarrow> fst (SampleExtract_row N Q rlweA rlweB) ! 0 = rlweA ! 0
       \<and> snd (SampleExtract_row N Q rlweA rlweB) = rlweB ! 0"
  by (simp add: SampleExtract_row_def Let_def nth_map_upt)

text \<open>
  C5.  The evaluator's sample extraction follows the rule \<open>b' = C0[0]\<close>,
  \<open>a'[0] = C1[0]\<close> and \<open>a'[i] = - C1[N - i] mod Q\<close> for \<open>1 \<le> i < N\<close>: for
  coefficients of \<open>C1\<close> that are at most \<open>Q\<close> it writes \<open>Q - C1[N - i]\<close> without
  wrap-around, the residue of the negation modulo \<open>Q\<close>.  The representative written is
  the one in \<open>(0, Q]\<close>: \<open>Q\<close> itself for a coefficient \<open>0\<close>.  The two polynomials of
  the new ciphertext have \<open>N\<close> coefficients.
\<close>

theorem sampleExtract_follows_rule:
  assumes "0 < NBR" and "length value0 = NBR" and "length value1 = NBR"
    and "length c1 = NBR" and "list_all (\<lambda>c. c \<le> qBR) c1"
  shows "fst (sampleExtract NBR qBR c0 c1 value0 value1) ! 0 = c0 ! 0
       \<and> snd (sampleExtract NBR qBR c0 c1 value0 value1) ! 0 = c1 ! 0
       \<and> (\<forall>i. 1 \<le> i \<and> i < NBR \<longrightarrow>
             snd (sampleExtract NBR qBR c0 c1 value0 value1) ! i = qBR - c1 ! (NBR - i)
             \<and> uint (snd (sampleExtract NBR qBR c0 c1 value0 value1) ! i) mod uint qBR
                 = (- uint (c1 ! (NBR - i))) mod uint qBR)"
proof (intro conjI allI impI)
  show "fst (sampleExtract NBR qBR c0 c1 value0 value1) ! 0 = c0 ! 0"
    using assms(1,2) by (simp add: sampleExtract_b)
  show "snd (sampleExtract NBR qBR c0 c1 value0 value1) ! 0 = c1 ! 0"
    using assms(1,3) by (simp add: sampleExtract_a0)
next
  fix i assume i: "1 \<le> i \<and> i < NBR"
  show v: "snd (sampleExtract NBR qBR c0 c1 value0 value1) ! i = qBR - c1 ! (NBR - i)"
    using i assms(3) by (simp add: sampleExtract_ai)
  have "NBR - i < length c1" using i assms(4) by simp
  then have le: "c1 ! (NBR - i) \<le> qBR"
    using assms(5) by (simp add: list_all_length)
  have "uint (qBR - c1 ! (NBR - i)) = uint qBR - uint (c1 ! (NBR - i))"
    using le by (simp add: uint_sub_if' word_le_def)
  also have "\<dots> = - uint (c1 ! (NBR - i)) + uint qBR" by simp
  finally have "uint (qBR - c1 ! (NBR - i)) mod uint qBR
                = (- uint (c1 ! (NBR - i)) + uint qBR) mod uint qBR" by simp
  also have "\<dots> = (- uint (c1 ! (NBR - i))) mod uint qBR" by (rule mod_add_self2)
  finally show "uint (snd (sampleExtract NBR qBR c0 c1 value0 value1) ! i) mod uint qBR
                 = (- uint (c1 ! (NBR - i))) mod uint qBR"
    unfolding v .
qed

theorem sampleExtract_follows_rule_witness:
  "(0::nat) < 4 \<and> length ([0, 0, 0, 0] :: coeffs) = 4 \<and> length ([5, 0, 3, 2] :: coeffs) = 4
   \<and> list_all (\<lambda>c. c \<le> 17) ([5, 0, 3, 2] :: coeffs)
   \<and> sampleExtract 4 17 [9, 1, 2, 3] [5, 0, 3, 2] [0, 0, 0, 0] [0, 0, 0, 0]
       = ([9, 0, 0, 0], [5, 15, 14, 17])
   \<and> uint (snd (sampleExtract 4 17 [9, 1, 2, 3] [5, 0, 3, 2] [0, 0, 0, 0] [0, 0, 0, 0]) ! 1)
         mod uint (17 :: 64 word) = (- uint (([5, 0, 3, 2] :: coeffs) ! (4 - 1))) mod uint (17 :: 64 word)
   \<and> uint (snd (sampleExtract 4 17 [9, 1, 2, 3] [5, 0, 3, 2] [0, 0, 0, 0] [0, 0, 0, 0]) ! 3)
         mod uint (17 :: 64 word) = (- uint (([5, 0, 3, 2] :: coeffs) ! (4 - 3))) mod uint (17 :: 64 word)
   \<and> (- uint (([5, 0, 3, 2] :: coeffs) ! (4 - 3))) mod uint (17 :: 64 word) = 0"
proof -
  have h1: "(0::nat) < 4" by simp
  have h2: "length ([0, 0, 0, 0] :: coeffs) = 4" by simp
  have h4: "length ([5, 0, 3, 2] :: coeffs) = 4" by simp
  have h5: "list_all (\<lambda>c. c \<le> 17) ([5, 0, 3, 2] :: coeffs)" by simp
  have e: "sampleExtract 4 17 [9, 1, 2, 3] [5, 0, 3, 2] [0, 0, 0, 0] [0, 0, 0, 0]
       = ([9, 0, 0, 0], [5, 15, 14, 17])"
    by code_simp
  have z: "(- uint (([5, 0, 3, 2] :: coeffs) ! (4 - 3))) mod uint (17 :: 64 word) = 0" by simp
  note T = sampleExtract_follows_rule[OF h1 h2 h2 h4 h5, of "[9, 1, 2, 3]"]
  have r: "\<forall>i. 1 \<le> i \<and> i < 4 \<longrightarrow>
             uint (snd (sampleExtract 4 17 [9, 1, 2, 3] [5, 0, 3, 2] [0, 0, 0, 0] [0, 0, 0, 0]) ! i)
               mod uint (17 :: 64 word)
             = (- uint (([5, 0, 3, 2] :: coeffs) ! (4 - i))) mod uint (17 :: 64 word)"
    using T by blast
  have r1: "uint (snd (sampleExtract 4 17 [9, 1, 2, 3] [5, 0, 3, 2] [0, 0, 0, 0] [0, 0, 0, 0]) ! 1)
         mod uint (17 :: 64 word) = (- uint (([5, 0, 3, 2] :: coeffs) ! (4 - 1))) mod uint (17 :: 64 word)"
    using r[rule_format, of 1] by simp
  have r3: "uint (snd (sampleExtract 4 17 [9, 1, 2, 3] [5, 0, 3, 2] [0, 0, 0, 0] [0, 0, 0, 0]) ! 3)
         mod uint (17 :: 64 word) = (- uint (([5, 0, 3, 2] :: coeffs) ! (4 - 3))) mod uint (17 :: 64 word)"
    using r[rule_format, of 3] by simp
  show ?thesis
    by (intro conjI h1 h2 h4 h5 e r1 r3 z)
qed

section \<open>The final modulus switch\<close>

text \<open>
  C4.  The claim asks for the nearest integer to \<open>x \<sqdot> q\<^sub>l\<^sub>w\<^sub>e / Q\<^sub>b\<^sub>r\<close>, ties to even.
  With \<open>q\<^sub>l\<^sub>w\<^sub>e = 12289\<close>, \<open>Q\<^sub>b\<^sub>r = 134215681\<close> and the coefficient \<open>8192\<close> the
  quotient is about \<open>0.75\<close>: the nearest integer is \<open>1\<close> and the source's conversion to
  uint64 gives \<open>0\<close>.  The same holds with \<open>q\<^sub>l\<^sub>w\<^sub>e = 2\<^sup>1\<^sup>5\<close> and the coefficient \<open>3072\<close>.
\<close>

theorem scaleCoeff_truncates:
  "scaleCoeff 12289 134215681 8192 = 0
   \<and> round_half_even (8192 * 12289 / 134215681) mod 12289 = 1
   \<and> scaleCoeff 32768 134215681 3072 = 0
   \<and> round_half_even (3072 * 32768 / 134215681) mod 32768 = 1"
  by code_simp

section \<open>What the evaluator's calls leave unchanged\<close>

lemma frame_refl: "frame b s s"
  by (simp add: frame_def)

lemma frame_trans: "frame b s s1 \<Longrightarrow> frame b s1 s2 \<Longrightarrow> frame b s s2"
  by (simp add: frame_def)

lemma frame_widen: "frame b s s' \<Longrightarrow> b' \<le> b \<Longrightarrow> frame b' s s'"
  by (simp add: frame_def)

lemma frame_fresh: "frame b s s' \<Longrightarrow> fresh s \<le> fresh s'"
  by (simp add: frame_def)

lemma frame_alloc: "b \<le> fresh s \<Longrightarrow> frame b s (fst (alloc ob s))"
  by (simp add: frame_def alloc_def)

lemma frame_write: "b \<le> a \<Longrightarrow> frame b s (write_coeffs s a c)"
  by (simp add: frame_def write_coeffs_def)

lemma frame_op1: "b \<le> p2 \<Longrightarrow> frame b s (poly_op1 f s p1 p2)"
  by (simp add: poly_op1_def frame_write)

lemma frame_op2: "b \<le> p3 \<Longrightarrow> frame b s (poly_op2 f s p1 p2 p3)"
  by (simp add: poly_op2_def frame_write)

lemma frame_set_IsNTT: "b \<le> ct \<Longrightarrow> frame b s (set_IsNTT s ct v)"
  by (simp add: frame_def set_IsNTT_def split: option.splits obj.splits)

lemma Value_write: "a \<noteq> r \<Longrightarrow> Value (write_coeffs s a c) r j = Value s r j"
  by (simp add: Value_def write_coeffs_def)

lemma Value_op1: "p2 \<noteq> r \<Longrightarrow> Value (poly_op1 f s p1 p2) r j = Value s r j"
  by (simp add: poly_op1_def Value_write)

lemma Value_op2: "p3 \<noteq> r \<Longrightarrow> Value (poly_op2 f s p1 p2 p3) r j = Value s r j"
  by (simp add: poly_op2_def Value_write)

lemma Value_set_IsNTT: "Value (set_IsNTT s ct v) r j = Value s r j"
  by (auto simp: Value_def set_IsNTT_def split: option.splits obj.splits)

lemma own_write: "own_ct b s r \<Longrightarrow> a \<noteq> r \<Longrightarrow> own_ct b (write_coeffs s a c) r"
  by (simp add: own_ct_def Value_write)

lemma own_op1: "own_ct b s r \<Longrightarrow> p2 \<noteq> r \<Longrightarrow> own_ct b (poly_op1 f s p1 p2) r"
  by (simp add: poly_op1_def own_write)

lemma own_op2: "own_ct b s r \<Longrightarrow> p3 \<noteq> r \<Longrightarrow> own_ct b (poly_op2 f s p1 p2 p3) r"
  by (simp add: poly_op2_def own_write)

lemma own_set_IsNTT: "own_ct b s r \<Longrightarrow> own_ct b (set_IsNTT s ct v) r"
  by (simp add: own_ct_def Value_set_IsNTT)

lemma own_Value: "own_ct b s r \<Longrightarrow> j < 2 \<Longrightarrow> b \<le> Value s r j \<and> Value s r j \<noteq> r"
  by (cases "j = 0") (auto simp: own_ct_def less_2_cases_iff)

text \<open>An in-place operation on a component of an owned ciphertext.\<close>

lemma own_step_op1:
  assumes "own_ct b s r" "j < 2"
  shows "frame b s (poly_op1 f s p (Value s r j)) \<and> own_ct b (poly_op1 f s p (Value s r j)) r"
  using assms own_Value[OF assms] by (simp add: frame_op1 own_op1)

lemma own_step_op2:
  assumes "own_ct b s r" "j < 2"
  shows "frame b s (poly_op2 f s p q (Value s r j)) \<and> own_ct b (poly_op2 f s p q (Value s r j)) r"
  using assms own_Value[OF assms] by (simp add: frame_op2 own_op2)

lemma own_step_write:
  assumes "own_ct b s r" "j < 2"
  shows "frame b s (write_coeffs s (Value s r j) c) \<and> own_ct b (write_coeffs s (Value s r j) c) r"
  using assms own_Value[OF assms] by (simp add: frame_write own_write)

lemma own_step_set:
  assumes "own_ct b s r"
  shows "frame b s (set_IsNTT s r v) \<and> own_ct b (set_IsNTT s r v) r"
proof -
  have "b \<le> r" using assms by (simp add: own_ct_def)
  then show ?thesis using assms by (simp add: frame_set_IsNTT own_set_IsNTT)
qed

lemma NewCiphertext_props:
  assumes "b \<le> fresh s"
  shows "frame b s (fst (NewCiphertext n s))"
    and "own_ct b (fst (NewCiphertext n s)) (snd (NewCiphertext n s))"
  using assms
  by (simp_all add: NewCiphertext_def alloc_def Let_def frame_def own_ct_def Value_def)

lemma Poly_CopyNew_props:
  assumes "b \<le> fresh s"
  shows "frame b s (fst (Poly_CopyNew s p))" and "b \<le> snd (Poly_CopyNew s p)"
  using assms by (simp_all add: Poly_CopyNew_def alloc_def frame_def)

lemma CopyNew_props:
  assumes "b \<le> fresh s"
  shows "frame b s (fst (CopyNew s ct))"
    and "own_ct b (fst (CopyNew s ct)) (snd (CopyNew s ct))"
  using assms
  by (simp_all add: CopyNew_def Poly_CopyNew_def alloc_def Let_def frame_def own_ct_def Value_def)

lemma frame_scale_step:
  assumes "own_ct b s r"
  shows "frame b s (scale_step ev s r)"
proof -
  define s1 where "s1 = (if IsNTT s r
               then set_IsNTT
                      (poly_op1 (ringQLWE_INTT ev)
                         (poly_op1 (ringQLWE_INTT ev) s (Value s r 0) (Value s r 0))
                         (Value s r 1) (Value s r 1))
                      r False
               else s)"
  have 1: "frame b s s1 \<and> own_ct b s1 r"
  proof (cases "IsNTT s r")
    case False
    then show ?thesis using assms by (simp add: s1_def frame_refl)
  next
    case True
    let ?a = "poly_op1 (ringQLWE_INTT ev) s (Value s r 0) (Value s r 0)"
    have a: "frame b s ?a \<and> own_ct b ?a r" using assms by (intro own_step_op1) simp_all
    have v: "Value ?a r 1 = Value s r 1"
      using own_Value[OF assms, of 0] by (simp add: Value_op1)
    let ?b = "poly_op1 (ringQLWE_INTT ev) ?a (Value s r 1) (Value s r 1)"
    have b: "frame b ?a ?b \<and> own_ct b ?b r"
      using own_step_op1[of b ?a r 1] a v by simp
    have c: "frame b ?b (set_IsNTT ?b r False) \<and> own_ct b (set_IsNTT ?b r False) r"
      using b by (intro own_step_set) simp
    have "frame b s (set_IsNTT ?b r False)"
      using frame_trans[OF frame_trans] a b c by blast
    then show ?thesis using True c by (simp add: s1_def)
  qed
  define s2 where "s2 = write_coeffs s1 (Value s1 r 0)
                (scaleCoeffs (N_LWE ev) (QLWE ev) (QBR ev) (coeffs_at s1 (Value s1 r 0)))"
  have 2: "frame b s1 s2 \<and> own_ct b s2 r" unfolding s2_def using 1 by (intro own_step_write) simp_all
  define s3 where "s3 = write_coeffs s2 (Value s2 r 1)
                (scaleCoeffs (N_LWE ev) (QLWE ev) (QBR ev) (coeffs_at s2 (Value s2 r 1)))"
  have 3: "frame b s2 s3 \<and> own_ct b s3 r" unfolding s3_def using 2 by (intro own_step_write) simp_all
  define s4 where "s4 = poly_op1 (ringQLWE_NTT ev) s3 (Value s3 r 0) (Value s3 r 0)"
  have 4: "frame b s3 s4 \<and> own_ct b s4 r" unfolding s4_def using 3 by (intro own_step_op1) simp_all
  define s5 where "s5 = poly_op1 (ringQLWE_NTT ev) s4 (Value s4 r 1) (Value s4 r 1)"
  have 5: "frame b s4 s5 \<and> own_ct b s5 r" unfolding s5_def using 4 by (intro own_step_op1) simp_all
  have 6: "frame b s5 (set_IsNTT s5 r True)" using 5 by (simp add: own_step_set)
  have e: "scale_step ev s r = set_IsNTT s5 r True"
    by (simp add: scale_step_def Let_def s1_def s2_def s3_def s4_def s5_def)
  have "frame b s s3" using frame_trans[OF frame_trans] 1 2 3 by blast
  moreover have "frame b s3 (set_IsNTT s5 r True)" using frame_trans[OF frame_trans] 4 5 6 by blast
  ultimately show ?thesis unfolding e by (rule frame_trans)
qed

lemma own_widen: "own_ct b s r \<Longrightarrow> b' \<le> b \<Longrightarrow> own_ct b' s r"
  by (simp add: own_ct_def)

lemma frame_extract_step:
  assumes "b \<le> fresh s"
  shows "frame b s (fst (extract_step ev s ctBR))"
proof -
  define s1 where "s1 = fst (Poly_CopyNew s (Value s ctBR 0))"
  define c0 where "c0 = snd (Poly_CopyNew s (Value s ctBR 0))"
  define s2 where "s2 = fst (Poly_CopyNew s1 (Value s1 ctBR 1))"
  define c1 where "c1 = snd (Poly_CopyNew s1 (Value s1 ctBR 1))"
  define s3 where "s3 = (if IsNTT s2 ctBR
               then poly_op1 (ringQBR_INTT ev) (poly_op1 (ringQBR_INTT ev) s2 c0 c0) c1 c1
               else s2)"
  define s4 where "s4 = fst (NewCiphertext (N_BR ev) s3)"
  define r where "r = snd (NewCiphertext (N_BR ev) s3)"
  define v where "v = sampleExtract (N_BR ev) (QBR ev) (coeffs_at s4 c0) (coeffs_at s4 c1)
                       (coeffs_at s4 (Value s4 r 0)) (coeffs_at s4 (Value s4 r 1))"
  define s5 where "s5 = write_coeffs s4 (Value s4 r 0) (fst v)"
  define s6 where "s6 = write_coeffs s5 (Value s5 r 1) (snd v)"
  define s7 where "s7 = poly_op1 (ringQBR_NTT ev) s6 (Value s6 r 0) (Value s6 r 0)"
  define s8 where "s8 = poly_op1 (ringQBR_NTT ev) s7 (Value s7 r 1) (Value s7 r 1)"
  have e: "extract_step ev s ctBR = (set_IsNTT s8 r True, r)"
    by (simp add: extract_step_def Let_def split_def s1_def c0_def s2_def c1_def s3_def s4_def
        r_def v_def s5_def s6_def s7_def s8_def)
  have 1: "frame b s s1" "b \<le> c0"
    unfolding s1_def c0_def using assms by (simp_all add: Poly_CopyNew_props)
  have f1: "b \<le> fresh s1" using 1(1) assms frame_fresh by fastforce
  have 2: "frame b s1 s2" "b \<le> c1"
    unfolding s2_def c1_def using f1 by (simp_all add: Poly_CopyNew_props)
  have f2: "b \<le> fresh s2" using 2(1) f1 frame_fresh by fastforce
  have 3: "frame b s2 s3"
    unfolding s3_def using frame_trans[OF frame_op1[OF 1(2)] frame_op1[OF 2(2)]]
    by (simp add: frame_refl)
  have f3: "b \<le> fresh s3" using 3 f2 frame_fresh by fastforce
  have 4: "frame b s3 s4" "own_ct b s4 r"
    unfolding s4_def r_def using f3 by (simp_all add: NewCiphertext_props)
  have 5: "frame b s4 s5 \<and> own_ct b s5 r" unfolding s5_def using 4 by (intro own_step_write) simp_all
  have 6: "frame b s5 s6 \<and> own_ct b s6 r" unfolding s6_def using 5 by (intro own_step_write) simp_all
  have 7: "frame b s6 s7 \<and> own_ct b s7 r" unfolding s7_def using 6 by (intro own_step_op1) simp_all
  have 8: "frame b s7 s8 \<and> own_ct b s8 r" unfolding s8_def using 7 by (intro own_step_op1) simp_all
  have 9: "frame b s8 (set_IsNTT s8 r True)" using 8 by (simp add: own_step_set)
  have "frame b s s4"
    using frame_trans[OF frame_trans[OF frame_trans[OF 1(1) 2(1)] 3] 4(1)] .
  moreover have "frame b s4 s8"
    using frame_trans[OF frame_trans[OF frame_trans] ] 5 6 7 8 by blast
  ultimately have "frame b s (set_IsNTT s8 r True)"
    using frame_trans[OF frame_trans 9] by blast
  then show ?thesis by (simp add: e)
qed

lemma keySwitch_step_props:
  assumes "b \<le> fresh s"
  shows "frame b s (fst (keySwitch_step ev s ctLWEBR))
         \<and> (\<forall>r. snd (keySwitch_step ev s ctLWEBR) = Inr r
                  \<longrightarrow> own_ct b (fst (keySwitch_step ev s ctLWEBR)) r)"
proof -
  define s1 where "s1 = fst (NewCiphertext (N_LWE ev) s)"
  define r where "r = snd (NewCiphertext (N_LWE ev) s)"
  define s2 where "s2 = set_IsNTT s1 r True"
  have 1: "frame b s s1" "own_ct b s1 r"
    unfolding s1_def r_def using assms by (simp_all add: NewCiphertext_props)
  have 2: "frame b s1 s2 \<and> own_ct b s2 r" unfolding s2_def using 1 by (intro own_step_set) simp
  have f2: "frame b s s2" using frame_trans[OF 1(1)] 2 by blast
  show ?thesis
  proof (cases "ApplyEvaluationKey ev (coeffs_at s2 (Value s2 ctLWEBR 0))
                  (coeffs_at s2 (Value s2 ctLWEBR 1))")
    case (Inl e)
    then have "keySwitch_step ev s ctLWEBR = (s2, Inl KeySwitchingFailed)"
      by (simp add: keySwitch_step_def Let_def split_def s1_def r_def s2_def)
    then show ?thesis using f2 by simp
  next
    case (Inr w)
    obtain w0 w1 ntt where w: "w = (w0, w1, ntt)" by (cases w) auto
    define s3 where "s3 = write_coeffs s2 (Value s2 r 0) w0"
    define s4 where "s4 = write_coeffs s3 (Value s3 r 1) w1"
    have e: "keySwitch_step ev s ctLWEBR = (set_IsNTT s4 r ntt, Inr r)"
      using Inr w
      by (simp add: keySwitch_step_def Let_def split_def s1_def r_def s2_def s3_def s4_def)
    have 3: "frame b s2 s3 \<and> own_ct b s3 r" unfolding s3_def using 2 by (intro own_step_write) simp_all
    have 4: "frame b s3 s4 \<and> own_ct b s4 r" unfolding s4_def using 3 by (intro own_step_write) simp_all
    have 5: "frame b s4 (set_IsNTT s4 r ntt) \<and> own_ct b (set_IsNTT s4 r ntt) r"
      using 4 by (intro own_step_set) simp
    have "frame b s (set_IsNTT s4 r ntt)"
      using frame_trans[OF frame_trans[OF frame_trans[OF f2]]] 3 4 5 by blast
    then show ?thesis using 5 by (simp add: e)
  qed
qed

lemma frame_sampleExtractAndKeySwitch:
  assumes "b \<le> fresh s"
  shows "frame b s (fst (sampleExtractAndKeySwitch ev s ctBR))"
proof (cases "KSK_present ev")
  case False
  then show ?thesis by (simp add: sampleExtractAndKeySwitch_def frame_refl)
next
  case True
  define s1 where "s1 = fst (extract_step ev s ctBR)"
  define r1 where "r1 = snd (extract_step ev s ctBR)"
  have 1: "frame b s s1" unfolding s1_def using assms by (rule frame_extract_step)
  have f1: "b \<le> fresh s1" using 1 assms frame_fresh by fastforce
  define k where "k = keySwitch_step ev s1 r1"
  have 2: "frame b s1 (fst k)" "\<forall>r. snd k = Inr r \<longrightarrow> own_ct b (fst k) r"
    unfolding k_def using keySwitch_step_props[OF f1] by simp_all
  show ?thesis
  proof (cases "snd k")
    case (Inl e)
    then have "sampleExtractAndKeySwitch ev s ctBR = (fst k, Inl e)"
      using True by (simp add: sampleExtractAndKeySwitch_def Let_def split_def s1_def r1_def k_def)
    then show ?thesis using frame_trans[OF 1 2(1)] by simp
  next
    case (Inr r)
    then have e: "sampleExtractAndKeySwitch ev s ctBR = (scale_step ev (fst k) r, Inr r)"
      using True by (simp add: sampleExtractAndKeySwitch_def Let_def split_def s1_def r1_def k_def)
    have "frame b (fst k) (scale_step ev (fst k) r)"
      using 2(2) Inr by (intro frame_scale_step) simp
    then show ?thesis using frame_trans[OF frame_trans[OF 1 2(1)]] by (simp add: e)
  qed
qed

lemma frame_Evaluate:
  assumes "Evaluate_frame f" "b \<le> fresh s" "own_ct b s ct"
  shows "frame b s (fst (f s ct tp))"
proof -
  have "\<And>a. a < b \<Longrightarrow> mem (fst (f s ct tp)) a = mem s a"
  proof -
    fix a assume "a < b"
    then have "a < fresh s \<and> a \<noteq> ct \<and> a \<noteq> Value s ct 0 \<and> a \<noteq> Value s ct 1"
      using assms(2,3) by (auto simp: own_ct_def)
    then show "mem (fst (f s ct tp)) a = mem s a"
      using assms(1) unfolding Evaluate_frame_def by blast
  qed
  moreover have "fresh s \<le> fresh (fst (f s ct tp))"
    using assms(1) unfolding Evaluate_frame_def by blast
  ultimately show ?thesis by (simp add: frame_def)
qed

lemma frame_bootstrap:
  assumes "Evaluate_frame (blindrot_Evaluate ev)" "b \<le> fresh s" "own_ct b s ct"
  shows "frame b s (fst (bootstrap ev s ct tp))"
proof -
  define e where "e = blindrot_Evaluate ev s ct tp"
  have 1: "frame b s (fst e)" unfolding e_def using assms by (rule frame_Evaluate)
  have f1: "b \<le> fresh (fst e)" using 1 assms(2) frame_fresh by fastforce
  show ?thesis
  proof (cases "snd e")
    case (Inl x)
    then have "bootstrap ev s ct tp = (fst e, Inl BootstrapEvaluateFailed)"
      by (simp add: bootstrap_def e_def split_def)
    then show ?thesis using 1 by simp
  next
    case (Inr o1)
    show ?thesis
    proof (cases o1)
      case None
      then have "bootstrap ev s ct tp = (fst e, Inl NoResultForSlot0)"
        using Inr by (simp add: bootstrap_def e_def split_def)
      then show ?thesis using 1 by simp
    next
      case (Some ctBR)
      then have "bootstrap ev s ct tp = sampleExtractAndKeySwitch ev (fst e) ctBR"
        using Inr by (simp add: bootstrap_def e_def split_def)
      then show ?thesis
        using frame_trans[OF 1 frame_sampleExtractAndKeySwitch[OF f1, of ev ctBR]] by simp
    qed
  qed
qed


text \<open>The linear steps write only to the ciphertext they allocate.\<close>

lemma addCiphertexts_props:
  assumes "b \<le> fresh s"
  shows "frame b s (fst (addCiphertexts ev s ct1 ct2))"
    and "own_ct b (fst (addCiphertexts ev s ct1 ct2)) (snd (addCiphertexts ev s ct1 ct2))"
  using assms
  by (simp_all add: addCiphertexts_def NewCiphertext_def alloc_def poly_op2_def write_coeffs_def
      set_IsNTT_def Value_def frame_def own_ct_def Let_def)

lemma doubleCiphertext_props:
  assumes "b \<le> fresh s"
  shows "frame b s (fst (doubleCiphertext ev s ct))"
    and "own_ct b (fst (doubleCiphertext ev s ct)) (snd (doubleCiphertext ev s ct))"
  using assms
  by (simp_all add: doubleCiphertext_def NewCiphertext_def alloc_def poly_op2_def write_coeffs_def
      set_IsNTT_def Value_def frame_def own_ct_def Let_def)

lemma negateCiphertext_props:
  assumes "b \<le> fresh s"
  shows "frame b s (fst (negateCiphertext ev s ct))"
    and "own_ct b (fst (negateCiphertext ev s ct)) (snd (negateCiphertext ev s ct))"
  using assms
  by (simp_all add: negateCiphertext_def NewCiphertext_def alloc_def poly_op1_def write_coeffs_def
      set_IsNTT_def Value_def frame_def own_ct_def Let_def)

lemma frame_addConstant:
  assumes "b \<le> fresh s"
  shows "frame b s (fst (addConstant ev s ct c))"
proof -
  define s1 where "s1 = fst (CopyNew s ct)"
  define r where "r = snd (CopyNew s ct)"
  define s2 where "s2 = (if IsNTT s1 r
               then poly_op1 (ringQLWE_INTT ev) s1 (Value s1 r 1) (Value s1 r 1) else s1)"
  define s3 where "s3 = write_coeffs s2 (Value s2 r 1)
                  ((coeffs_at s2 (Value s2 r 1))[0 := (coeffs_at s2 (Value s2 r 1) ! 0 + c) mod QLWE ev])"
  define s4 where "s4 = (if IsNTT s3 ct
               then poly_op1 (ringQLWE_NTT ev) s3 (Value s3 r 1) (Value s3 r 1) else s3)"
  have e: "addConstant ev s ct c = (s4, r)"
    by (simp add: addConstant_def Let_def split_def s1_def r_def s2_def s3_def s4_def)
  have 1: "frame b s s1" "own_ct b s1 r"
    unfolding s1_def r_def using assms by (simp_all add: CopyNew_props)
  have 2: "frame b s1 s2 \<and> own_ct b s2 r"
    unfolding s2_def using 1(2) own_step_op1[of b s1 r 1] by (simp add: frame_refl)
  have 3: "frame b s2 s3 \<and> own_ct b s3 r"
    unfolding s3_def using 2 by (intro own_step_write) simp_all
  have 4: "frame b s3 s4"
    unfolding s4_def using 3 own_step_op1[of b s3 r 1] by (simp add: frame_refl)
  have "frame b s s4"
    using frame_trans[OF frame_trans[OF frame_trans[OF 1(1)]]] 2 3 4 by blast
  then show ?thesis by (simp add: e)
qed

text \<open>
  A bootstrap of a sum, and of a doubled sum: the blind rotation is given a ciphertext
  allocated after the call began.
\<close>

lemma frame_add_bootstrap:
  assumes "Evaluate_frame (blindrot_Evaluate ev)" "b \<le> fresh s"
  shows "frame b s (fst (bootstrap ev (fst (addCiphertexts ev s ct1 ct2))
                           (snd (addCiphertexts ev s ct1 ct2)) tp))"
proof -
  let ?s1 = "fst (addCiphertexts ev s ct1 ct2)"
  have 1: "frame b s ?s1" using assms(2) by (rule addCiphertexts_props)
  have f1: "b \<le> fresh ?s1" using 1 assms(2) frame_fresh by fastforce
  have "frame b ?s1 (fst (bootstrap ev ?s1 (snd (addCiphertexts ev s ct1 ct2)) tp))"
    using assms(1) f1 addCiphertexts_props(2)[OF assms(2)] by (rule frame_bootstrap)
  with 1 show ?thesis by (rule frame_trans)
qed

lemma frame_add_double_bootstrap:
  assumes "Evaluate_frame (blindrot_Evaluate ev)" "b \<le> fresh s"
  shows "frame b s
           (fst (bootstrap ev
                   (fst (doubleCiphertext ev (fst (addCiphertexts ev s ct1 ct2))
                           (snd (addCiphertexts ev s ct1 ct2))))
                   (snd (doubleCiphertext ev (fst (addCiphertexts ev s ct1 ct2))
                           (snd (addCiphertexts ev s ct1 ct2)))) tp))"
proof -
  let ?s1 = "fst (addCiphertexts ev s ct1 ct2)"
  let ?d = "doubleCiphertext ev ?s1 (snd (addCiphertexts ev s ct1 ct2))"
  have 1: "frame b s ?s1" using assms(2) by (rule addCiphertexts_props)
  have f1: "b \<le> fresh ?s1" using 1 assms(2) frame_fresh by fastforce
  have 2: "frame b ?s1 (fst ?d)" using f1 by (rule doubleCiphertext_props)
  have f2: "b \<le> fresh (fst ?d)" using 2 f1 frame_fresh by fastforce
  have "frame b (fst ?d) (fst (bootstrap ev (fst ?d) (snd ?d) tp))"
    using assms(1) f2 doubleCiphertext_props(2)[OF f1] by (rule frame_bootstrap)
  with frame_trans[OF 1 2] show ?thesis by (rule frame_trans)
qed

lemma frame_NOT_gate: "b \<le> fresh s \<Longrightarrow> frame b s (fst (NOT_gate ev s ct))"
  by (simp add: NOT_gate_def negateCiphertext_props)

lemma frame_AND_gate:
  "Evaluate_frame (blindrot_Evaluate ev) \<Longrightarrow> b \<le> fresh s \<Longrightarrow> frame b s (fst (AND_gate ev s ct1 ct2))"
  by (simp add: AND_gate_def split_def Let_def frame_add_bootstrap)

lemma frame_OR_gate:
  "Evaluate_frame (blindrot_Evaluate ev) \<Longrightarrow> b \<le> fresh s \<Longrightarrow> frame b s (fst (OR_gate ev s ct1 ct2))"
  by (simp add: OR_gate_def split_def Let_def frame_add_bootstrap)

lemma frame_NAND_gate:
  "Evaluate_frame (blindrot_Evaluate ev) \<Longrightarrow> b \<le> fresh s \<Longrightarrow> frame b s (fst (NAND_gate ev s ct1 ct2))"
  by (simp add: NAND_gate_def split_def Let_def frame_add_bootstrap)

lemma frame_NOR_gate:
  "Evaluate_frame (blindrot_Evaluate ev) \<Longrightarrow> b \<le> fresh s \<Longrightarrow> frame b s (fst (NOR_gate ev s ct1 ct2))"
  by (simp add: NOR_gate_def split_def Let_def frame_add_bootstrap)

lemma frame_XOR_gate:
  "Evaluate_frame (blindrot_Evaluate ev) \<Longrightarrow> b \<le> fresh s \<Longrightarrow> frame b s (fst (XOR_gate ev s ct1 ct2))"
  by (simp add: XOR_gate_def split_def Let_def frame_add_double_bootstrap)

lemma frame_XNOR_gate:
  "Evaluate_frame (blindrot_Evaluate ev) \<Longrightarrow> b \<le> fresh s \<Longrightarrow> frame b s (fst (XNOR_gate ev s ct1 ct2))"
  by (simp add: XNOR_gate_def split_def Let_def frame_add_double_bootstrap)

text \<open>Sequencing: a call after a call that kept the frame.\<close>

lemma frame_then:
  assumes "frame b s s1" "b \<le> fresh s" "\<And>t. b \<le> fresh t \<Longrightarrow> frame b t (g t)"
  shows "frame b s (g s1)"
proof -
  have "b \<le> fresh s1" using assms(1,2) frame_fresh by fastforce
  then have "frame b s1 (g s1)" by (rule assms(3))
  with assms(1) show ?thesis by (rule frame_trans)
qed

lemma frame_ANDNY:
  assumes "Evaluate_frame (blindrot_Evaluate ev)" "b \<le> fresh s"
  shows "frame b s (fst (ANDNY ev s ct1 ct2))"
  unfolding ANDNY_def split_def Let_def
  by (rule frame_then[OF frame_NOT_gate[OF assms(2)] assms(2)]) (rule frame_AND_gate[OF assms(1)])

lemma frame_ANDYN:
  assumes "Evaluate_frame (blindrot_Evaluate ev)" "b \<le> fresh s"
  shows "frame b s (fst (ANDYN ev s ct1 ct2))"
  unfolding ANDYN_def split_def Let_def
  by (rule frame_then[OF frame_NOT_gate[OF assms(2)] assms(2)]) (rule frame_AND_gate[OF assms(1)])

lemma frame_ORNY:
  assumes "Evaluate_frame (blindrot_Evaluate ev)" "b \<le> fresh s"
  shows "frame b s (fst (ORNY ev s ct1 ct2))"
  unfolding ORNY_def split_def Let_def
  by (rule frame_then[OF frame_NOT_gate[OF assms(2)] assms(2)]) (rule frame_OR_gate[OF assms(1)])

lemma frame_ORYN:
  assumes "Evaluate_frame (blindrot_Evaluate ev)" "b \<le> fresh s"
  shows "frame b s (fst (ORYN ev s ct1 ct2))"
  unfolding ORYN_def split_def Let_def
  by (rule frame_then[OF frame_NOT_gate[OF assms(2)] assms(2)]) (rule frame_OR_gate[OF assms(1)])

lemma frame_MAJORITY:
  assumes "Evaluate_frame (blindrot_Evaluate ev)" "b \<le> fresh s"
  shows "frame b s (fst (MAJORITY ev s ct1 ct2 ct3))"
proof -
  let ?s1 = "fst (addCiphertexts ev s ct1 ct2)"
  have 1: "frame b s ?s1" using assms(2) by (rule addCiphertexts_props)
  have f1: "b \<le> fresh ?s1" using 1 assms(2) frame_fresh by fastforce
  have "frame b ?s1 (fst (MAJORITY ev s ct1 ct2 ct3))"
    unfolding MAJORITY_def split_def Let_def using assms(1) f1 by (rule frame_add_bootstrap)
  with 1 show ?thesis by (rule frame_trans)
qed

lemma frame_AND3:
  assumes "Evaluate_frame (blindrot_Evaluate ev)" "b \<le> fresh s"
  shows "frame b s (fst (AND3 ev s ct1 ct2 ct3))"
proof -
  have 1: "frame b s (fst (AND_gate ev s ct1 ct2))" using assms by (rule frame_AND_gate)
  show ?thesis
  proof (cases "snd (AND_gate ev s ct1 ct2)")
    case (Inl e)
    then show ?thesis using 1 by (simp add: AND3_def split_def)
  next
    case (Inr ab)
    then have "AND3 ev s ct1 ct2 ct3 = AND_gate ev (fst (AND_gate ev s ct1 ct2)) ab ct3"
      by (simp add: AND3_def split_def)
    then show ?thesis
      using frame_then[OF 1 assms(2), of "\<lambda>t. fst (AND_gate ev t ab ct3)"]
        frame_AND_gate[OF assms(1)] by simp
  qed
qed

lemma frame_OR3:
  assumes "Evaluate_frame (blindrot_Evaluate ev)" "b \<le> fresh s"
  shows "frame b s (fst (OR3 ev s ct1 ct2 ct3))"
proof -
  have 1: "frame b s (fst (OR_gate ev s ct1 ct2))" using assms by (rule frame_OR_gate)
  show ?thesis
  proof (cases "snd (OR_gate ev s ct1 ct2)")
    case (Inl e)
    then show ?thesis using 1 by (simp add: OR3_def split_def)
  next
    case (Inr ab)
    then have "OR3 ev s ct1 ct2 ct3 = OR_gate ev (fst (OR_gate ev s ct1 ct2)) ab ct3"
      by (simp add: OR3_def split_def)
    then show ?thesis
      using frame_then[OF 1 assms(2), of "\<lambda>t. fst (OR_gate ev t ab ct3)"]
        frame_OR_gate[OF assms(1)] by simp
  qed
qed

lemma frame_NAND3:
  assumes "Evaluate_frame (blindrot_Evaluate ev)" "b \<le> fresh s"
  shows "frame b s (fst (NAND3 ev s ct1 ct2 ct3))"
proof -
  have 1: "frame b s (fst (AND3 ev s ct1 ct2 ct3))" using assms by (rule frame_AND3)
  show ?thesis
  proof (cases "snd (AND3 ev s ct1 ct2 ct3)")
    case (Inl e)
    then show ?thesis using 1 by (simp add: NAND3_def split_def Let_def)
  next
    case (Inr r)
    then have "fst (NAND3 ev s ct1 ct2 ct3) = fst (NOT_gate ev (fst (AND3 ev s ct1 ct2 ct3)) r)"
      by (simp add: NAND3_def split_def Let_def)
    then show ?thesis
      using frame_then[OF 1 assms(2), of "\<lambda>t. fst (NOT_gate ev t r)"] frame_NOT_gate by simp
  qed
qed

lemma frame_NOR3:
  assumes "Evaluate_frame (blindrot_Evaluate ev)" "b \<le> fresh s"
  shows "frame b s (fst (NOR3 ev s ct1 ct2 ct3))"
proof -
  have 1: "frame b s (fst (OR3 ev s ct1 ct2 ct3))" using assms by (rule frame_OR3)
  show ?thesis
  proof (cases "snd (OR3 ev s ct1 ct2 ct3)")
    case (Inl e)
    then show ?thesis using 1 by (simp add: NOR3_def split_def Let_def)
  next
    case (Inr r)
    then have "fst (NOR3 ev s ct1 ct2 ct3) = fst (NOT_gate ev (fst (OR3 ev s ct1 ct2 ct3)) r)"
      by (simp add: NOR3_def split_def Let_def)
    then show ?thesis
      using frame_then[OF 1 assms(2), of "\<lambda>t. fst (NOT_gate ev t r)"] frame_NOT_gate by simp
  qed
qed

lemma frame_MUX:
  assumes "Evaluate_frame (blindrot_Evaluate ev)" "b \<le> fresh s"
  shows "frame b s (fst (MUX ev s sel ctTrue ctFalse))"
proof -
  let ?a = "AND_gate ev s sel ctTrue"
  have 1: "frame b s (fst ?a)" using assms by (rule frame_AND_gate)
  show ?thesis
  proof (cases "snd ?a")
    case (Inl e)
    then show ?thesis using 1 by (simp add: MUX_def split_def)
  next
    case (Inr selAndTrue)
    let ?n = "NOT_gate ev (fst ?a) sel"
    have 2: "frame b s (fst ?n)"
      using frame_then[OF 1 assms(2), of "\<lambda>t. fst (NOT_gate ev t sel)"] frame_NOT_gate by simp
    let ?c = "AND_gate ev (fst ?n) (snd ?n) ctFalse"
    have 3: "frame b s (fst ?c)"
      using frame_then[OF 2 assms(2), of "\<lambda>t. fst (AND_gate ev t (snd ?n) ctFalse)"]
        frame_AND_gate[OF assms(1)] by simp
    show ?thesis
    proof (cases "snd ?c")
      case (Inl e)
      then show ?thesis using Inr 3 by (simp add: MUX_def split_def Let_def)
    next
      case (Inr notSelAndFalse)
      have "MUX ev s sel ctTrue ctFalse = OR_gate ev (fst ?c) selAndTrue notSelAndFalse"
        using \<open>snd ?a = Inr selAndTrue\<close> Inr by (simp add: MUX_def split_def Let_def)
      then show ?thesis
        using frame_then[OF 3 assms(2), of "\<lambda>t. fst (OR_gate ev t selAndTrue notSelAndFalse)"]
          frame_OR_gate[OF assms(1)] by simp
    qed
  qed
qed

text \<open>From the frame to the operands: what existed before the call is kept.\<close>

lemma frame_kept:
  assumes "frame (fresh s) s s'" "allocated s ct"
  shows "kept s s' ct"
proof -
  have m: "\<And>a. a < fresh s \<Longrightarrow> mem s' a = mem s a" using assms(1) by (simp add: frame_def)
  have c: "mem s' ct = mem s ct" using assms(2) by (simp add: allocated_def m)
  have v: "Value s' ct 0 = Value s ct 0" "Value s' ct 1 = Value s ct 1" "IsNTT s' ct = IsNTT s ct"
    by (simp_all add: Value_def IsNTT_def c)
  have w: "mem s' (Value s ct 0) = mem s (Value s ct 0)" "mem s' (Value s ct 1) = mem s (Value s ct 1)"
    using assms(2) by (simp_all add: allocated_def m)
  show ?thesis unfolding kept_def coeffs_at_def v w by simp
qed

section \<open>NOT, and the operands of a gate\<close>

lemma example_Evaluate_frame: "Evaluate_frame example_Evaluate"
proof -
  have "\<And>s ct tp. frame (fresh s) s (fst (example_Evaluate s ct tp))"
    by (simp add: example_Evaluate_def split_def Let_def CopyNew_props)
  then show ?thesis by (simp add: Evaluate_frame_def frame_def)
qed

lemma word_offset_moves:
  fixes x c q :: "64 word"
  assumes "x < q" "0 < c" "c < q" "q < 2 ^ 63"
  shows "(x + c) mod q \<noteq> x"
proof
  assume e: "(x + c) mod q = x"
  have q: "unat q < 2 ^ 63" using assms(4) by (simp add: word_less_nat_alt)
  have xb: "unat x < unat q" and cb: "unat c < unat q" "0 < unat c"
    using assms by (simp_all add: word_less_nat_alt)
  have s: "unat (x + c) = unat x + unat c"
    using xb cb q by (simp add: unat_word_ariths)
  have "unat ((x + c) mod q) = (unat x + unat c) mod unat q"
    by (simp add: unat_mod s)
  then have m: "(unat x + unat c) mod unat q = unat x" using e by simp
  show False
  proof (cases "unat x + unat c < unat q")
    case True
    then show False using m cb by simp
  next
    case False
    then have "(unat x + unat c) mod unat q = (unat x + unat c - unat q) mod unat q"
      by (simp add: le_mod_geq)
    also have "\<dots> = unat x + unat c - unat q" using xb cb by simp
    finally show False using m cb False by simp
  qed
qed

lemma neg_example:
  "negateCiphertext example_evaluator example_store 2 =
     (\<lparr> mem = (\<lambda>a. None)(0 \<mapsto> Coeffs [1, 2, 3, 4], 1 \<mapsto> Coeffs [5, 0, 16, 2],
                         2 \<mapsto> Ct [0, 1] False,
                         3 \<mapsto> Coeffs [4, 4, 0, 1], 4 \<mapsto> Coeffs [7, 8, 9, 10],
                         5 \<mapsto> Ct [3, 4] False,
                         6 \<mapsto> Coeffs [16, 15, 14, 13], 7 \<mapsto> Coeffs [12, 0, 1, 15],
                         8 \<mapsto> Ct [6, 7] False),
       fresh = 9 \<rparr>, 8)"
  apply (simp add: negateCiphertext_def example_evaluator_def example_store_def NewCiphertext_def alloc_def
    poly_op1_def write_coeffs_def set_IsNTT_def IsNTT_def Value_def coeffs_at_def Zq_Neg_def Let_def)
  done

lemma example_fields:
  "QLWE example_evaluator = 17" "N_LWE example_evaluator = 4"
  "ringQLWE_Neg example_evaluator = Zq_Neg 17" "ringQLWE_Add example_evaluator = Zq_Add 17"
  "ringQLWE_NTT example_evaluator = (\<lambda>c. c)" "ringQLWE_INTT example_evaluator = (\<lambda>c. c)"
  "blindrot_Evaluate example_evaluator = example_Evaluate"
  by (simp_all add: example_evaluator_def)

lemma addConstant_example:
  "polys_of (let (s1, n) = negateCiphertext example_evaluator example_store 2
             in addConstant example_evaluator s1 n c)
   = ([16, 15, 14, 13], [(12 + c) mod 17, 0, 1, 15])"
  unfolding neg_example
  by (simp add: addConstant_def CopyNew_def Poly_CopyNew_def alloc_def
      example_fields poly_op1_def write_coeffs_def IsNTT_def Value_def coeffs_at_def
      polys_of_def Let_def)

lemma NOT_example:
  "polys_of (NOT_gate example_evaluator example_store 2) = ([16, 15, 14, 13], [12, 0, 1, 15])"
  by (simp add: NOT_gate_def neg_example polys_of_def Value_def coeffs_at_def)

text \<open>
  C7, as stated.  The claim has the result of NOT be the negation with a constant offset
  added to the \<open>b\<close> term; the source adds gate offsets with \<open>addConstant\<close>.  On the
  ciphertext at address 2 of the example store NOT returns the plain negation
  \<open>([16, 15, 14, 13], [12, 0, 1, 15])\<close> modulo 17, and no constant \<open>c\<close> with
  \<open>0 < c < QLWE\<close> makes \<open>addConstant\<close> of the negation equal to it.
\<close>

theorem NOT_gate_adds_no_offset:
  "polys_of (NOT_gate example_evaluator example_store 2) = ([16, 15, 14, 13], [12, 0, 1, 15])
   \<and> \<not> (\<exists>c. 0 < c \<and> c < QLWE example_evaluator
            \<and> polys_of (NOT_gate example_evaluator example_store 2)
                = polys_of (let (s1, n) = negateCiphertext example_evaluator example_store 2
                            in addConstant example_evaluator s1 n c))"
proof -
  have "\<And>c::64 word. 0 < c \<Longrightarrow> c < 17 \<Longrightarrow> (12 + c) mod 17 \<noteq> 12"
    by (rule word_offset_moves) simp_all
  then have "\<And>c::64 word. 0 < c \<Longrightarrow> c < 17 \<Longrightarrow> 12 \<noteq> (12 + c) mod 17"
    by (metis)
  then show ?thesis
    unfolding NOT_example addConstant_example by (auto simp: example_fields)
qed

text \<open>
  C7, amended.  For every ciphertext that exists in the store, NOT returns a new
  ciphertext whose two polynomials are the ring negations of the operand's and whose
  \<open>IsNTT\<close> flag is the operand's; nothing is added to either polynomial.  The operand is
  kept.  The result does not depend on the blind rotation or the key switch (no
  bootstrap), and the function returns a ciphertext, never an error.
\<close>

theorem NOT_gate_negates:
  assumes "allocated s ct"
  shows "polys_of (NOT_gate ev s ct)
           = (ringQLWE_Neg ev (coeffs_at s (Value s ct 0)), ringQLWE_Neg ev (coeffs_at s (Value s ct 1)))
         \<and> IsNTT (fst (NOT_gate ev s ct)) (snd (NOT_gate ev s ct)) = IsNTT s ct
         \<and> kept s (fst (NOT_gate ev s ct)) ct
         \<and> NOT_gate (ev\<lparr>blindrot_Evaluate := f, ApplyEvaluationKey := g\<rparr>) s ct = NOT_gate ev s ct"
proof -
  have 1: "polys_of (NOT_gate ev s ct)
           = (ringQLWE_Neg ev (coeffs_at s (Value s ct 0)), ringQLWE_Neg ev (coeffs_at s (Value s ct 1)))"
    using assms
    by (simp add: NOT_gate_def negateCiphertext_def NewCiphertext_def alloc_def poly_op1_def
        write_coeffs_def set_IsNTT_def Value_def coeffs_at_def polys_of_def allocated_def Let_def)
  have 2: "IsNTT (fst (NOT_gate ev s ct)) (snd (NOT_gate ev s ct)) = IsNTT s ct"
    using assms
    by (simp add: NOT_gate_def negateCiphertext_def NewCiphertext_def alloc_def poly_op1_def
        write_coeffs_def set_IsNTT_def Value_def IsNTT_def allocated_def Let_def)
  have 3: "kept s (fst (NOT_gate ev s ct)) ct"
    using assms by (intro frame_kept frame_NOT_gate) simp_all
  have 4: "NOT_gate (ev\<lparr>blindrot_Evaluate := f, ApplyEvaluationKey := g\<rparr>) s ct = NOT_gate ev s ct"
    by (simp add: NOT_gate_def negateCiphertext_def)
  show ?thesis using 1 2 3 4 by simp
qed

theorem NOT_gate_negates_witness:
  "allocated example_store 2
   \<and> polys_of (NOT_gate example_evaluator example_store 2)
       = (Zq_Neg 17 [1, 2, 3, 4], Zq_Neg 17 [5, 0, 16, 2])
   \<and> IsNTT (fst (NOT_gate example_evaluator example_store 2))
        (snd (NOT_gate example_evaluator example_store 2)) = False
   \<and> kept example_store (fst (NOT_gate example_evaluator example_store 2)) 2"
proof -
  have h: "allocated example_store 2"
    by (simp add: allocated_def example_store_def Value_def)
  have v: "coeffs_at example_store (Value example_store 2 0) = [1, 2, 3, 4]"
      "coeffs_at example_store (Value example_store 2 (Suc 0)) = [5, 0, 16, 2]"
      "IsNTT example_store 2 = False"
    by (simp_all add: example_store_def Value_def coeffs_at_def IsNTT_def)
  show ?thesis using h NOT_gate_negates[OF h, of example_evaluator] by (simp add: v example_fields)
qed

text \<open>
  C10.  Provided the library's blind rotation writes only to the ciphertext it is given
  and to what it allocates, every ciphertext that exists before a call (the operands
  among them) has after the call the coefficient vectors and the \<open>IsNTT\<close> flag it had
  before: for the four linear steps, NOT, the six two-input gates, the four gates with a
  negated input, MUX, MAJORITY and the three-input gates, whether the call returns a
  ciphertext or an error.
\<close>

theorem gates_keep_operands:
  assumes "Evaluate_frame (blindrot_Evaluate ev)" and "allocated s ct"
  shows "kept s (fst (addCiphertexts ev s ct1 ct2)) ct
       \<and> kept s (fst (doubleCiphertext ev s ct1)) ct
       \<and> kept s (fst (negateCiphertext ev s ct1)) ct
       \<and> kept s (fst (addConstant ev s ct1 c)) ct
       \<and> kept s (fst (NOT_gate ev s ct1)) ct
       \<and> kept s (fst (AND_gate ev s ct1 ct2)) ct
       \<and> kept s (fst (OR_gate ev s ct1 ct2)) ct
       \<and> kept s (fst (XOR_gate ev s ct1 ct2)) ct
       \<and> kept s (fst (NAND_gate ev s ct1 ct2)) ct
       \<and> kept s (fst (NOR_gate ev s ct1 ct2)) ct
       \<and> kept s (fst (XNOR_gate ev s ct1 ct2)) ct
       \<and> kept s (fst (ANDNY ev s ct1 ct2)) ct
       \<and> kept s (fst (ANDYN ev s ct1 ct2)) ct
       \<and> kept s (fst (ORNY ev s ct1 ct2)) ct
       \<and> kept s (fst (ORYN ev s ct1 ct2)) ct
       \<and> kept s (fst (MUX ev s ct1 ct2 ct3)) ct
       \<and> kept s (fst (AND3 ev s ct1 ct2 ct3)) ct
       \<and> kept s (fst (OR3 ev s ct1 ct2 ct3)) ct
       \<and> kept s (fst (MAJORITY ev s ct1 ct2 ct3)) ct
       \<and> kept s (fst (NAND3 ev s ct1 ct2 ct3)) ct
       \<and> kept s (fst (NOR3 ev s ct1 ct2 ct3)) ct"
proof -
  note k = frame_kept[OF _ assms(2)]
  note e = assms(1)
  show ?thesis
    by (intro conjI k addCiphertexts_props doubleCiphertext_props negateCiphertext_props
        frame_addConstant frame_NOT_gate frame_AND_gate[OF e] frame_OR_gate[OF e]
        frame_XOR_gate[OF e] frame_NAND_gate[OF e] frame_NOR_gate[OF e] frame_XNOR_gate[OF e]
        frame_ANDNY[OF e] frame_ANDYN[OF e] frame_ORNY[OF e] frame_ORYN[OF e] frame_MUX[OF e]
        frame_AND3[OF e] frame_OR3[OF e] frame_MAJORITY[OF e] frame_NAND3[OF e] frame_NOR3[OF e]
        order_refl)
qed

theorem gates_keep_operands_witness:
  "Evaluate_frame (blindrot_Evaluate example_evaluator) \<and> allocated example_store 2
   \<and> kept example_store (fst (AND_gate example_evaluator example_store 2 5)) 2
   \<and> kept example_store (fst (XOR_gate example_evaluator example_store 2 5)) 2
   \<and> kept example_store (fst (MUX example_evaluator example_store 2 5 2)) 2
   \<and> kept example_store (fst (addConstant example_evaluator example_store 2 3)) 2"
proof -
  have h1: "Evaluate_frame (blindrot_Evaluate example_evaluator)"
    by (simp add: example_fields example_Evaluate_frame)
  have h2: "allocated example_store 2"
    by (simp add: allocated_def example_store_def Value_def)
  show ?thesis using h1 h2 gates_keep_operands[OF h1 h2, of 2 5 3 2] by simp
qed

section \<open>The ripple-carry adder\<close>

lemma DecryptUint_EncryptUint:
  "\<forall>b. dec (enc b) = b \<Longrightarrow> DecryptUint dec (EncryptUint enc w x) = x mod 2 ^ w"
proof (induction w arbitrary: x)
  case 0
  then show ?case by simp
next
  case (Suc w)
  have "x mod (2 * 2 ^ w) = x mod 2 + 2 * (x div 2 mod 2 ^ w)"
    by (simp add: mod_mult2_eq)
  then show ?case using Suc by (simp add: odd_iff_mod_2_eq_one)
qed

lemma length_EncryptUint: "length (EncryptUint enc w x) = w"
  by (induction w arbitrary: x) simp_all

lemma DecryptUint_bound: "DecryptUint dec cs < 2 ^ length cs"
  by (induction cs) auto

lemma ripple_correct:
  assumes g: "gates_decrypt dec E" and l: "length as = length bs"
  shows "\<exists>r. ripple E c as bs = Inr r \<and> length r = length as
            \<and> DecryptUint dec r
               = (DecryptUint dec as + DecryptUint dec bs + (if dec c then 1 else 0)) mod 2 ^ length as"
  using l
proof (induction as bs arbitrary: c rule: list_induct2)
  case Nil
  then show ?case by simp
next
  case (Cons a as b bs)
  obtain t where t: "gate_XOR E a b = Inr t" "dec t = (dec a \<noteq> dec b)"
    using g unfolding gates_decrypt_def by blast
  obtain s where s: "gate_XOR E t c = Inr s" "dec s = (dec t \<noteq> dec c)"
    using g unfolding gates_decrypt_def by blast
  obtain c' where c': "gate_MAJORITY E a b c = Inr c'"
      "dec c' = ((dec a \<and> dec b) \<or> (dec a \<and> dec c) \<or> (dec b \<and> dec c))"
    using g unfolding gates_decrypt_def by blast
  show ?case
  proof (cases "as = [] \<and> bs = []")
    case True
    then have "ripple E c (a # as) (b # bs) = Inr [s]" using t s by simp
    moreover have "DecryptUint dec [s]
         = (DecryptUint dec (a # as) + DecryptUint dec (b # bs) + (if dec c then 1 else 0)) mod 2 ^ length (a # as)"
      using True t s by auto
    ultimately show ?thesis using True by simp
  next
    case False
    obtain rest where rest: "ripple E c' as bs = Inr rest" "length rest = length as"
        "DecryptUint dec rest
           = (DecryptUint dec as + DecryptUint dec bs + (if dec c' then 1 else 0)) mod 2 ^ length as"
      using Cons.IH[of c'] by blast
    have ne: "as \<noteq> []" using False Cons.hyps by auto
    have r: "ripple E c (a # as) (b # bs) = Inr (s # rest)"
      using ne t s c' rest(1) by simp
    define A where "A = DecryptUint dec as"
    define B where "B = DecryptUint dec bs"
    define n where "n = length as"
    have bits: "bit_val (dec a) + bit_val (dec b) + bit_val (dec c)
                = bit_val (dec s) + 2 * bit_val (dec c')"
      using t s c' by (auto simp: bit_val_def)
    have "bit_val (dec a) + 2 * A + (bit_val (dec b) + 2 * B) + bit_val (dec c)
          = bit_val (dec s) + 2 * (A + B + bit_val (dec c'))"
      using bits by arith
    then have "(bit_val (dec a) + 2 * A + (bit_val (dec b) + 2 * B) + bit_val (dec c)) mod (2 * 2 ^ n)
          = (bit_val (dec s) + 2 * (A + B + bit_val (dec c'))) mod (2 * 2 ^ n)"
      by (rule arg_cong)
    also have "\<dots> = (bit_val (dec s) + 2 * (A + B + bit_val (dec c'))) mod 2
                    + 2 * ((bit_val (dec s) + 2 * (A + B + bit_val (dec c'))) div 2 mod 2 ^ n)"
      by (simp add: mod_mult2_eq)
    also have "\<dots> = bit_val (dec s) + 2 * ((A + B + bit_val (dec c')) mod 2 ^ n)"
      by (simp add: bit_val_def)
    finally have "DecryptUint dec (s # rest)
         = (DecryptUint dec (a # as) + DecryptUint dec (b # bs) + (if dec c then 1 else 0)) mod 2 ^ length (a # as)"
      using rest(3) by (simp add: A_def B_def n_def bit_val_def)
    then show ?thesis using r rest(2) by simp
  qed
qed

text \<open>
  C2.  For every width \<open>w\<close> and all \<open>a, b < 2\<^sup>w\<close>, over any bit layer whose XOR and
  MAJORITY decrypt to the gate's value and any encryption that decryption inverts, \<open>Add\<close>
  of the encodings of \<open>a\<close> and \<open>b\<close> returns a ciphertext of width \<open>w\<close> (not an error) that
  decrypts to \<open>(a + b) mod 2\<^sup>w\<close>.
\<close>

theorem Add_decrypts_to_sum_mod:
  assumes "gates_decrypt dec E" and "\<And>b. dec (enc b) = b" and "a < 2 ^ w" and "b < 2 ^ w"
  shows "\<exists>r. Add E (EncryptUint enc w a) (EncryptUint enc w b) = Inr r
             \<and> length r = w \<and> DecryptUint dec r = (a + b) mod 2 ^ w"
proof -
  have l: "length (EncryptUint enc w a) = length (EncryptUint enc w b)"
    by (simp add: length_EncryptUint)
  obtain r where r: "ripple E (enc_zero E) (EncryptUint enc w a) (EncryptUint enc w b) = Inr r"
      "length r = length (EncryptUint enc w a)"
      "DecryptUint dec r
         = (DecryptUint dec (EncryptUint enc w a) + DecryptUint dec (EncryptUint enc w b)
            + (if dec (enc_zero E) then 1 else 0)) mod 2 ^ length (EncryptUint enc w a)"
    using ripple_correct[OF assms(1) l] by blast
  have z: "\<not> dec (enc_zero E)" using assms(1) by (simp add: gates_decrypt_def)
  have "DecryptUint dec r = (a mod 2 ^ w + b mod 2 ^ w) mod 2 ^ w"
    using r(3) z assms(2) by (simp add: DecryptUint_EncryptUint length_EncryptUint)
  then have "DecryptUint dec r = (a + b) mod 2 ^ w" using assms(3,4) by simp
  then show ?thesis using r(1,2) l by (simp add: Add_def length_EncryptUint)
qed

lemma plain_gates: "gates_decrypt (\<lambda>b. b) plain_evaluator"
  by (auto simp: gates_decrypt_def plain_evaluator_def)

theorem Add_decrypts_to_sum_mod_witness:
  "gates_decrypt (\<lambda>b. b) plain_evaluator \<and> (255::nat) < 2 ^ 8 \<and> (1::nat) < 2 ^ 8
   \<and> (\<exists>r. Add plain_evaluator (EncryptUint (\<lambda>b. b) 8 255) (EncryptUint (\<lambda>b. b) 8 1) = Inr r
          \<and> length r = 8 \<and> DecryptUint (\<lambda>b. b) r = 0)"
proof -
  have h3: "(255::nat) < 2 ^ 8" and h4: "(1::nat) < 2 ^ 8" by simp_all
  show ?thesis
    using plain_gates h3 h4
      Add_decrypts_to_sum_mod[OF plain_gates _ h3 h4, of "\<lambda>b. b"] by simp
qed

section \<open>The transforms on the package's array operations\<close>

lemma elems_mlx_Zeros: "list_all (\<lambda>c. c = 0) (elems (mlx_Zeros sh dt))"
  by (simp add: mlx_Zeros_def list_all_iff)

lemma elems_Reshape:
  "list_all (\<lambda>c. c = 0) (elems a) \<Longrightarrow> list_all (\<lambda>c. c = 0) (elems (Reshape a sh))"
  by (simp add: Reshape_def elems_mlx_Zeros)

lemma elems_barrettMulModArray: "list_all (\<lambda>c. c = 0) (elems (barrettMulModArray lib a b Q))"
  by (simp add: barrettMulModArray_def Remainder_def Let_def elems_mlx_Zeros)

lemma if_either: "(if b then y else x) = x \<or> (if b then y else x) = y"
  by simp

lemma NTTInverse_zeros: "list_all (\<lambda>c. c = 0) (elems (NTTInverse lib ctx input))"
proof -
  define c where "c = barrettMulModArray lib
      (Take (fst (fold (inverse_stage lib ctx
                   ((if length (Shape input) = 1 then [1, int (ntt_N ctx)] else Shape input) ! 0))
                 (rev [0..<Log2N ctx])
                 (if length (Shape input) = 1 then Reshape input [1, int (ntt_N ctx)] else input,
                  int (ntt_N ctx) - 2)))
         (bitRevIndices ctx) 1)
      (Tile (nInvArray ctx)
         [(if length (Shape input) = 1 then [1, int (ntt_N ctx)] else Shape input) ! 0, int (ntt_N ctx)])
      (wrap64 (ntt_Q ctx))"
  have z: "list_all (\<lambda>c. c = 0) (elems c)" unfolding c_def by (rule elems_barrettMulModArray)
  have "NTTInverse lib ctx input = c \<or> NTTInverse lib ctx input = Reshape c [int (ntt_N ctx)]"
    unfolding NTTInverse_def Let_def c_def by (rule if_either)
  then show ?thesis using z elems_Reshape by auto
qed

section \<open>Evaluation on a batch of one polynomial\<close>

lemma shape_mlx_Zeros [simp]: "shape (mlx_Zeros sh dt) = sh"
  by (simp add: mlx_Zeros_def)

lemma shape_mlx_ArrayFromSlice [simp]: "shape (mlx_ArrayFromSlice xs sh dt) = sh"
  by (simp add: mlx_ArrayFromSlice_def)

lemma wrap64_0: "wrap64 0 = 0"
  by (simp add: wrap64_def)

lemma go_div_1: "go_div a 1 = a"
  by (simp add: go_div_def abs_sgn mult.commute)

lemma Reshape_Zeros: "Reshape (mlx_Zeros sh Int64) sh' = mlx_Zeros sh' Int64"
  by (simp add: Reshape_def equalShapes_def)

lemma Slice_rank1: "shape a = [n] \<Longrightarrow> Slice a [s] [e] [1] = mlx_Zeros [e - s] Int64"
  by (simp add: Slice_def go_div_1)

lemma Take_rank2:
  "shape a = [b, n] \<Longrightarrow> shape idx = [k] \<Longrightarrow> Take a idx 1 = mlx_Zeros [b, k] Int64"
proof -
  assume a: "shape a = [b, n]" and i: "shape idx = [k]"
  have u: "[0..<2] = [0, Suc 0]" by (simp add: upt_rec)
  show ?thesis using a i u by (simp add: Take_def)
qed

lemma Take_rank2_Suc:
  "shape a = [b, n] \<Longrightarrow> shape idx = [k] \<Longrightarrow> Take a idx (Suc 0) = mlx_Zeros [b, k] Int64"
  using Take_rank2[of a b n idx k] by simp

lemma Tile_rank2: "shape a = [x, y] \<Longrightarrow> Tile a [r, r'] = mlx_Zeros [x * r, y * r'] Int64"
proof -
  assume a: "shape a = [x, y]"
  have u: "[0..<2] = [0, Suc 0]" by (simp add: upt_rec)
  show ?thesis using a u by (simp add: Tile_def Let_def)
qed

lemma Tile_rank1: "shape a = [x] \<Longrightarrow> Tile a [r, r'] = mlx_Zeros [x * r] Int64"
  by (simp add: Tile_def Let_def)

lemma example_Multiply_zeros:
  "mlx_Multiply example_mlx (mlx_Zeros sh dt) (mlx_Zeros sh dt') = mlx_Zeros sh dt"
  by (simp add: example_mlx_def example_binop_def mlx_Zeros_def wrap64_0 zip_replicate map_replicate_const)

lemma example_Add_zeros:
  "mlx_Add example_mlx (mlx_Zeros sh dt) (mlx_Zeros sh dt') = mlx_Zeros sh dt"
  by (simp add: example_mlx_def example_binop_def mlx_Zeros_def wrap64_0 zip_replicate map_replicate_const)

lemma example_Multiply_zeros_one:
  "mlx_Multiply example_mlx (mlx_Zeros sh dt) (mlx_Zeros [1] dt') = mlx_Zeros sh dt"
  by (simp add: example_mlx_def example_binop_def mlx_Zeros_def wrap64_0)

lemma barrett_zeros:
  "barrettMulModArray example_mlx (mlx_Zeros sh Int64) (mlx_Zeros sh Int64) Q = mlx_Zeros sh Int64"
  by (simp add: barrettMulModArray_def Let_def Remainder_def example_Multiply_zeros)

lemma addMod_zeros:
  "addModArray example_mlx (mlx_Zeros sh Int64) (mlx_Zeros sh Int64) Q = mlx_Zeros sh Int64"
  by (simp add: addModArray_def Let_def Where_def Subtract_def Negative_def Full_def Shape_def
      example_Add_zeros)

lemma subMod_zeros:
  "subModArray example_mlx (mlx_Zeros sh Int64) (mlx_Zeros sh Int64) Q = mlx_Zeros sh Int64"
  by (simp add: subModArray_def Let_def Where_def Subtract_def Negative_def Full_def Shape_def
      example_Add_zeros)

lemma butterflyScatter_zeros:
  "butterflyScatter example_mlx c (mlx_Zeros [1, k] Int64) (mlx_Zeros [1, k] Int64) l r 1 N
   = mlx_Zeros [1, int N] Int64"
proof -
  have t: "Take (mlx_Zeros [1, k] Int64) (mlx_ArrayFromSlice xs [int N] Int32) 1
           = mlx_Zeros [1, int N] Int64" for xs
    by (rule Take_rank2) simp_all
  have m: "Tile (AsType (mlx_ArrayFromSlice xs [1, int N] Float32) Int64) [1, 1]
           = mlx_Zeros [1, int N] Int64" for xs
    using Tile_rank2[of "AsType (mlx_ArrayFromSlice xs [1, int N] Float32) Int64" 1 "int N" 1 1]
    by (simp add: AsType_def)
  show ?thesis
    unfolding butterflyScatter_def Let_def split_def t m
    by (simp add: example_Multiply_zeros example_Add_zeros)
qed


lemma forward_stage_zeros:
  assumes c: "shape coeffs = [1, n]" and t: "shape (twiddleFactors ctx) = [k]"
  shows "forward_stage example_mlx ctx 1 stage (coeffs, off)
         = (mlx_Zeros [1, int (ntt_N ctx)] Int64, off + 2 ^ (stage + 1) div 2)"
proof -
  let ?N = "ntt_N ctx"
  have u: "Take coeffs (mlx_ArrayFromSlice xs [int (?N div 2)] Int32) 1
           = mlx_Zeros [1, int (?N div 2)] Int64" for xs
    using c by (intro Take_rank2) simp_all
  have s: "Slice (twiddleFactors ctx) [a] [b] [1] = mlx_Zeros [b - a] Int64" for a b
    using t by (rule Slice_rank1)
  have tl: "Tile (mlx_Zeros [x, y] Int64) [r, r'] = mlx_Zeros [x * r, y * r'] Int64" for x y r r'
    by (rule Tile_rank2) simp
  show ?thesis
    unfolding forward_stage_def Let_def split_def fst_conv snd_conv u s Reshape_Zeros tl
    by (simp add: butterflyScatter_zeros barrett_zeros addMod_zeros subMod_zeros)
qed

lemma inverse_stage_zeros:
  assumes c: "shape coeffs = [1, n]" and t: "shape (invTwiddleFactors ctx) = [k]"
  shows "inverse_stage example_mlx ctx 1 stage (coeffs, off)
         = (mlx_Zeros [1, int (ntt_N ctx)] Int64, off - int (2 ^ (stage + 1) div 2))"
proof -
  let ?N = "ntt_N ctx"
  have u: "Take coeffs (mlx_ArrayFromSlice xs [int (?N div 2)] Int32) 1
           = mlx_Zeros [1, int (?N div 2)] Int64" for xs
    using c by (intro Take_rank2) simp_all
  have s: "Slice (invTwiddleFactors ctx) [a] [b] [1] = mlx_Zeros [b - a] Int64" for a b
    using t by (rule Slice_rank1)
  have tl: "Tile (mlx_Zeros [x, y] Int64) [r, r'] = mlx_Zeros [x * r, y * r'] Int64" for x y r r'
    by (rule Tile_rank2) simp
  show ?thesis
    unfolding inverse_stage_def Let_def split_def fst_conv snd_conv u s Reshape_Zeros tl
    by (simp add: butterflyScatter_zeros barrett_zeros addMod_zeros subMod_zeros)
qed

lemma example_forward:
  "NTTForward example_mlx example_ctx (mlx_ArrayFromSlice [1, 2, 3, 4] [1, 4] Int64)
   = \<lparr> shape = [4], dtype = Int64, elems = [0, 0, 0, 0] \<rparr>"
proof -
  let ?p = "mlx_ArrayFromSlice [1, 2, 3, 4] [1, 4] Int64"
  have N: "ntt_N example_ctx = 4" and L: "Log2N example_ctx = 2"
    and tf: "shape (twiddleFactors example_ctx) = [3]"
    and br: "shape (bitRevIndices example_ctx) = [4]"
    by (simp_all add: example_ctx_def)
  have t: "Take ?p (bitRevIndices example_ctx) (Suc 0) = mlx_Zeros [1, 4] Int64"
    using br by (intro Take_rank2_Suc) simp_all
  have u2: "[0..<2] = [0, Suc 0]" by (simp add: upt_rec)
  have z: "shape (mlx_Zeros [1, 4] Int64) = [1, 4]" by simp
  have fz: "forward_stage example_mlx example_ctx 1 stage (mlx_Zeros [1, 4] Int64, off)
            = (mlx_Zeros [1, 4] Int64, off + 2 ^ (stage + 1) div 2)" for stage off
    using forward_stage_zeros[OF z tf, of stage off] N by simp
  have f: "fst (fold (forward_stage example_mlx example_ctx 1) [0..<2] (mlx_Zeros [1, 4] Int64, 0))
           = mlx_Zeros [1, 4] Int64"
    unfolding u2 by (simp add: fz)
  have r: "Reshape (mlx_Zeros [1, 4] Int64) [4] = \<lparr> shape = [4], dtype = Int64, elems = [0, 0, 0, 0] \<rparr>"
    unfolding Reshape_Zeros by (simp add: mlx_Zeros_def numeral_eq_Suc)
  show ?thesis
    unfolding NTTForward_def Let_def N L
    by (simp add: Shape_def t f r)
qed

lemma example_inverse:
  "NTTInverse example_mlx example_ctx \<lparr> shape = [4], dtype = Int64, elems = [0, 0, 0, 0] \<rparr>
   = \<lparr> shape = [4], dtype = Int64, elems = [0, 0, 0, 0] \<rparr>"
proof -
  let ?y = "\<lparr> shape = [4], dtype = Int64, elems = [0, 0, 0, 0] \<rparr>"
  have N: "ntt_N example_ctx = 4" and L: "Log2N example_ctx = 2"
    and tf: "shape (invTwiddleFactors example_ctx) = [3]"
    and br: "shape (bitRevIndices example_ctx) = [4]"
    and ni: "shape (nInvArray example_ctx) = [1]"
    by (simp_all add: example_ctx_def)
  have y: "?y = mlx_Zeros [4] Int64" by (simp add: mlx_Zeros_def numeral_eq_Suc)
  have i: "Reshape ?y [1, 4] = mlx_Zeros [1, 4] Int64" unfolding y by (rule Reshape_Zeros)
  have u2: "rev [0..<2] = [Suc 0, 0]" by (simp add: upt_rec)
  have z: "shape (mlx_Zeros [1, 4] Int64) = [1, 4]" by simp
  have iz: "inverse_stage example_mlx example_ctx 1 stage (mlx_Zeros [1, 4] Int64, off)
            = (mlx_Zeros [1, 4] Int64, off - int (2 ^ (stage + 1) div 2))" for stage off
    using inverse_stage_zeros[OF z tf, of stage off] N by simp
  have f: "fst (fold (inverse_stage example_mlx example_ctx 1) (rev [0..<2]) (mlx_Zeros [1, 4] Int64, 2))
           = mlx_Zeros [1, 4] Int64"
    unfolding u2 by (simp add: iz)
  have t: "Take (mlx_Zeros [1, 4] Int64) (bitRevIndices example_ctx) (Suc 0) = mlx_Zeros [1, 4] Int64"
    using br by (intro Take_rank2_Suc) simp_all
  have tl: "Tile (nInvArray example_ctx) [1, 4] = mlx_Zeros [1] Int64"
    using Tile_rank1[OF ni, of 1 4] by simp
  have b: "barrettMulModArray example_mlx (mlx_Zeros [1, 4] Int64) (mlx_Zeros [1] Int64) Q
           = mlx_Zeros [1, 4] Int64" for Q
    by (simp add: barrettMulModArray_def Let_def Remainder_def example_Multiply_zeros_one)
  have r: "Reshape (mlx_Zeros [1, 4] Int64) [4] = ?y"
    unfolding Reshape_Zeros by (simp add: mlx_Zeros_def numeral_eq_Suc)
  show ?thesis
    unfolding NTTInverse_def Let_def N L
    by (simp add: Shape_def i f t tl b r)
qed

text \<open>
  C9.  The transforms of \<open>gpu/ntt.go\<close> are not mutually inverse: \<open>NTTForward\<close> and
  \<open>NTTInverse\<close> gather, slice, tile, compare, select and reduce through the package's
  own \<open>Take\<close>, \<open>Slice\<close>, \<open>Tile\<close>, \<open>GreaterEqual\<close>, \<open>Where\<close> and \<open>Remainder\<close>, which
  return zeros.  For every context, every input array and every behaviour of the
  library's \<open>Add\<close> and \<open>Multiply\<close>, the inverse transform of the forward transform has
  no element other than zero; a polynomial with a non-zero coefficient does not come
  back.
\<close>

theorem NTT_round_trip_returns_zeros:
  "list_all (\<lambda>c. c = 0) (elems (NTTInverse lib ctx (NTTForward lib ctx p)))"
  by (rule NTTInverse_zeros)

text \<open>
  With \<open>N = 4\<close> and \<open>Q = 17\<close> the batch of the one polynomial \<open>1 + 2X + 3X\<^sup>2 + 4X\<^sup>3\<close>
  is transformed to four zeros, already by the forward transform, and the inverse
  transform returns four zeros.
\<close>

theorem NTT_round_trip_returns_zeros_witness:
  "elems (mlx_ArrayFromSlice [1, 2, 3, 4] [1, 4] Int64) = [1, 2, 3, 4]
   \<and> NTTForward example_mlx example_ctx (mlx_ArrayFromSlice [1, 2, 3, 4] [1, 4] Int64)
       = \<lparr> shape = [4], dtype = Int64, elems = [0, 0, 0, 0] \<rparr>
   \<and> NTTInverse example_mlx example_ctx
         (NTTForward example_mlx example_ctx (mlx_ArrayFromSlice [1, 2, 3, 4] [1, 4] Int64))
       = \<lparr> shape = [4], dtype = Int64, elems = [0, 0, 0, 0] \<rparr>
   \<and> list_all (\<lambda>c. c = 0)
         (elems (NTTInverse example_mlx example_ctx
            (NTTForward example_mlx example_ctx (mlx_ArrayFromSlice [1, 2, 3, 4] [1, 4] Int64))))"
proof -
  have a: "elems (mlx_ArrayFromSlice [1, 2, 3, 4] [1, 4] Int64) = [1, 2, 3, 4]"
    by (simp add: mlx_ArrayFromSlice_def)
  note f = example_forward
  have i: "NTTInverse example_mlx example_ctx
         (NTTForward example_mlx example_ctx (mlx_ArrayFromSlice [1, 2, 3, 4] [1, 4] Int64))
       = \<lparr> shape = [4], dtype = Int64, elems = [0, 0, 0, 0] \<rparr>"
    unfolding example_forward by (rule example_inverse)
  note z = NTT_round_trip_returns_zeros[of example_mlx example_ctx
      "mlx_ArrayFromSlice [1, 2, 3, 4] [1, 4] Int64"]
  show ?thesis by (intro conjI a f i z)
qed

end
